theory Spec2Isabelle
  imports Complex_Main "HOL-Library.AList" "HOL-Library.Sublist"
begin

section \<open>Strings as the Python code uses them\<close>

text \<open>
  Python \<open>str\<close> values are modelled as \<open>string\<close>; a \<open>char\<close> stands for one code
  point (the code points of Latin-1). \<open>contains sub s\<close> is Python's \<open>sub in s\<close>.
\<close>

fun contains :: "string \<Rightarrow> string \<Rightarrow> bool" where
  "contains sub [] = (sub = [])"
| "contains sub (c # cs) = (prefix sub (c # cs) \<or> contains sub cs)"

text \<open>
  \<open>py_split sep s\<close> is \<open>s.split(sep)\<close> for a non-empty separator: the pieces between
  the non-overlapping occurrences of \<open>sep\<close>, found from the left. \<open>acc\<close> holds the current
  piece, reversed.
\<close>

function split_from :: "string \<Rightarrow> string \<Rightarrow> string \<Rightarrow> string list" where
  "split_from sep acc [] = [rev acc]"
| "split_from sep acc (c # cs) =
     (if sep \<noteq> [] \<and> prefix sep (c # cs)
      then rev acc # split_from sep [] (drop (length sep) (c # cs))
      else split_from sep (c # acc) cs)"
  by pat_completeness auto
termination
  by (relation "measure (\<lambda>(sep, acc, s). length s)") auto

definition py_split :: "string \<Rightarrow> string \<Rightarrow> string list" where
  "py_split sep s = split_from sep [] s"

text \<open>\<open>s.rsplit('.', 1)[0]\<close>: the text before the last dot, or all of \<open>s\<close> without one.\<close>

definition rsplit_dot_head :: "string \<Rightarrow> string" where
  "rsplit_dot_head s =
     (if CHR ''.'' \<in> set s
      then rev (tl (dropWhile (\<lambda>c. c \<noteq> CHR ''.'') (rev s)))
      else s)"

text \<open>\<open>os.path.basename\<close>: the text after the last slash.\<close>

definition basename :: "string \<Rightarrow> string" where
  "basename p = rev (takeWhile (\<lambda>c. c \<noteq> CHR ''/'') (rev p))"

text \<open>\<open>str.strip()\<close> removes the white space of both ends.\<close>

definition py_isspace :: "char \<Rightarrow> bool" where
  "py_isspace c \<longleftrightarrow>
     c \<in> set [CHR 0x09, CHR 0x0A, CHR 0x0B, CHR 0x0C, CHR 0x0D, CHR 0x1C, CHR 0x1D,
              CHR 0x1E, CHR 0x1F, CHR 0x20, CHR 0x85, CHR 0xA0]"

definition py_strip :: "string \<Rightarrow> string" where
  "py_strip s = rev (dropWhile py_isspace (rev (dropWhile py_isspace s)))"

text \<open>
  \<open>sanitize_filename\<close>: \<open>re.sub(r'[\\/*?:"<>|]', "", title).strip()[:100]\<close>.
\<close>

definition hostile_chars :: "char list" where
  "hostile_chars =
     [CHR 0x5C, CHR ''/'', CHR ''*'', CHR ''?'', CHR '':'', CHR 0x22, CHR ''<'', CHR ''>'', CHR ''|'']"

definition sanitize_filename :: "string \<Rightarrow> string" where
  "sanitize_filename title =
     take 100 (py_strip (filter (\<lambda>c. c \<notin> set hostile_chars) title))"

section \<open>The request validator\<close>

text \<open>
  \<open>YOUTUBE_REGEX = r"^(https?://)?(www\.)?(youtube\.com|youtu\.?be)/.+$"\<close>, applied
  with \<open>re.match\<close>. \<open>after_any ps s\<close> lists what may remain of \<open>s\<close> after one of the
  literal alternatives \<open>ps\<close>; an optional group also leaves \<open>s\<close> itself. \<open>.+$\<close> takes one
  or more characters other than a newline up to the end of the text, or up to its final
  newline.
\<close>

definition after_any :: "string list \<Rightarrow> string \<Rightarrow> string list" where
  "after_any ps s = map (\<lambda>p. drop (length p) s) (filter (\<lambda>p. prefix p s) ps)"

definition after_optional :: "string list \<Rightarrow> string \<Rightarrow> string list" where
  "after_optional ps s = after_any ps s @ [s]"

definition dot_plus_end :: "string \<Rightarrow> bool" where
  "dot_plus_end r =
     (let w = (if r \<noteq> [] \<and> last r = CHR 0x0A then butlast r else r)
      in w \<noteq> [] \<and> CHR 0x0A \<notin> set w)"

definition slash_then_rest :: "string \<Rightarrow> bool" where
  "slash_then_rest r = (case r of [] \<Rightarrow> False | c # rest \<Rightarrow> c = CHR ''/'' \<and> dot_plus_end rest)"

definition matches_youtube_regex :: "string \<Rightarrow> bool" where
  "matches_youtube_regex s =
     list_ex (\<lambda>r1.
       list_ex (\<lambda>r2.
         list_ex slash_then_rest (after_any [''youtube.com'', ''youtu.be'', ''youtube''] r2))
         (after_optional [''www.''] r1))
       (after_optional [''https://'', ''http://''] s)"

section \<open>Exceptions\<close>

text \<open>
  Every exception the code raises or catches is a value. \<open>ExtractorError\<close> and
  \<open>ResolverError\<close> stand for whatever the two external collaborators raise, with their
  message. \<open>FileTooSmall n\<close> is the \<open>ValueError\<close> of the size check, whose message
  quotes the size \<open>n\<close>. \<open>HTTPExceptionOf c e\<close> is \<open>HTTPException(status_code=c,
  detail=str(e))\<close>.
\<close>

datatype exn =
    HTTPException nat string
  | HTTPExceptionOf nat exn
  | ValueError string
  | FileTooSmall nat
  | FileNotFoundError string
  | KeyError string
  | IndexError
  | ResolverError string
  | ExtractorError string

section \<open>Metadata resolution\<close>

text \<open>
  \<open>get_video_id\<close>. The index \<open>[1]\<close> after \<open>split('v=')\<close> is guarded by \<open>'v=' in url\<close>;
  the model keeps the \<open>IndexError\<close> branch and \<open>get_video_id_no_IndexError\<close> shows it dead.
\<close>

definition get_video_id :: "string \<Rightarrow> exn + string option" where
  "get_video_id url =
     (if contains ''youtu.be'' url then Inr (Some (last (py_split ''/'' url)))
      else if contains ''youtube.com'' url then
        (if contains ''v='' url then
           (case py_split ''v='' url of
              _ # x # _ \<Rightarrow> Inr (Some (hd (py_split ''&'' x)))
            | _ \<Rightarrow> Inl IndexError)
         else Inr None)
      else Inr None)"

text \<open>
  The fields of the metadata dictionary that the worker reads. The other four
  (duration, thumbnail, uploader, view count) are carried along and never inspected.
\<close>

record video_info =
  title :: string
  vid :: string

text \<open>
  \<open>get_video_info\<close>. After the id check the function consults the cache file, then the
  extractor's metadata call, then the catalogue API: all three are outside the program, so
  they are one parameter \<open>resolve\<close>, which gets the URL and the id and returns the
  metadata or the exception that escapes. \<open>not video_id\<close> holds for \<open>None\<close> and for the
  empty string.
\<close>

type_synonym resolver = "string \<Rightarrow> string \<Rightarrow> exn + video_info"

definition get_video_info :: "resolver \<Rightarrow> string \<Rightarrow> exn + video_info" where
  "get_video_info resolve url =
     (case get_video_id url of
        Inl e \<Rightarrow> Inl e
      | Inr None \<Rightarrow> Inl (ValueError ''Invalid YouTube URL'')
      | Inr (Some video_id) \<Rightarrow>
          if video_id = [] then Inl (ValueError ''Invalid YouTube URL'')
          else resolve url video_id)"

text \<open>\<open>POST /video/metadata\<close>: every exception becomes a 400 carrying its text.\<close>

definition get_metadata :: "resolver \<Rightarrow> string \<Rightarrow> exn + video_info" where
  "get_metadata resolve url =
     (case get_video_info resolve url of
        Inl e \<Rightarrow> Inl (HTTPExceptionOf 400 e)
      | Inr info \<Rightarrow> Inr info)"

section \<open>Jobs, files and the program state\<close>

datatype status = Queued | Processing | Completed | Failed

text \<open>
  Clock readings (\<open>time.time()\<close>) are real numbers of seconds; the rounding of the
  floating-point sum in \<open>time.time() + 600\<close> is not modelled.
\<close>

type_synonym time = real

definition FILE_EXPIRY_MINUTES :: real where
  "FILE_EXPIRY_MINUTES = 10"

definition MAX_CONCURRENT_CONVERSIONS :: nat where
  "MAX_CONCURRENT_CONVERSIONS = 10"

text \<open>
  A job is a Python dictionary whose keys vary with the status. Every dictionary the
  program stores has \<open>'status'\<close> and \<open>'url'\<close>; each other key is an optional field. The
  \<open>error\<close> field holds the exception whose text \<open>str(e)\<close> the code stores;
  \<open>conversion_time\<close> holds the seconds that the code formats into a text.
\<close>

record job =
  status :: status
  url :: string
  filename :: "string option"
  progress :: "string option"
  video_title :: "string option"
  start_time :: "time option"
  file_path :: "string option"
  expires_at :: "time option"
  file_size :: "nat option"
  conversion_time :: "time option"
  error :: "exn option"

text \<open>
  The download directory. A file has a size, which the program reads, and a kind, which
  it never reads: the kind records what the extractor wrote (a transcoded MP3, media in
  the source's own container, or the partial data of an unfinished download) and is
  kept by renaming.
\<close>

datatype kind = Mp3Audio | SourceMedia | PartialData

record artifact =
  fsize :: nat
  fkind :: kind

type_synonym fsys = "string \<rightharpoonup> artifact"

text \<open>
  The options of the extractor that the worker sets or changes. The remaining keys of
  \<open>get_ydl_opts\<close> are constants that no code path reads or writes again.
\<close>

record ydl_opts =
  format :: string
  outtmpl :: string
  preferredquality :: string
  player_client :: "string list"

text \<open>
  A background task is the coroutine \<open>run_conversion\<close> of one token, at one of its
  suspension points: waiting for the semaphore, waiting for the extractor's run number
  \<open>attempt\<close>, sleeping before the next run, or returned. The local variables that
  are live at the suspension point are kept with it.
\<close>

datatype task =
    Pending string string
  | Downloading string video_info string ydl_opts nat
  | Sleeping string video_info string ydl_opts nat
  | Finished

text \<open>
  The module's globals \<open>jobs\<close>, \<open>current_conversions\<close> and \<open>conversion_semaphore\<close>
  (its counter), the download directory, and the scheduled background tasks. \<open>jobs\<close>
  is an association list in insertion order, as a Python dictionary iterates.
\<close>

record sys =
  jobs :: "(string \<times> job) list"
  current_conversions :: "string set"
  disk :: fsys
  tasks :: "string \<rightharpoonup> task"
  permits :: nat

definition init :: sys where
  "init = \<lparr>jobs = [], current_conversions = {}, disk = Map.empty, tasks = Map.empty,
            permits = MAX_CONCURRENT_CONVERSIONS\<rparr>"

definition queued_job :: "string \<Rightarrow> job" where
  "queued_job u =
     \<lparr>status = Queued, url = u, filename = None, progress = None, video_title = None,
      start_time = None, file_path = None, expires_at = None, file_size = None,
      conversion_time = None, error = None\<rparr>"

definition processing_job :: "string \<Rightarrow> string \<Rightarrow> video_info \<Rightarrow> time \<Rightarrow> job" where
  "processing_job u base_filename info now =
     \<lparr>status = Processing, url = u, filename = Some (base_filename @ ''.mp3''),
      progress = Some ''Starting download...'', video_title = Some (title info),
      start_time = Some now, file_path = None, expires_at = None, file_size = None,
      conversion_time = None, error = None\<rparr>"

definition completed_job ::
  "string \<Rightarrow> string \<Rightarrow> video_info \<Rightarrow> nat \<Rightarrow> time \<Rightarrow> time \<Rightarrow> job" where
  "completed_job u actual_file info sz elapsed now =
     \<lparr>status = Completed, url = u, filename = Some (basename actual_file), progress = None,
      video_title = Some (title info), start_time = None, file_path = Some actual_file,
      expires_at = Some (now + FILE_EXPIRY_MINUTES * 60), file_size = Some sz,
      conversion_time = Some elapsed, error = None\<rparr>"

text \<open>
  The record of the \<open>except\<close> branch; \<open>info\<close> is \<open>None\<close> when the exception came before
  the local variable \<open>info\<close> was bound.
\<close>

definition failed_job :: "string \<Rightarrow> exn \<Rightarrow> video_info option \<Rightarrow> job" where
  "failed_job u e info =
     \<lparr>status = Failed, url = u, filename = None, progress = None,
      video_title = Some (case info of None \<Rightarrow> ''Unknown'' | Some i \<Rightarrow> title i),
      start_time = None, file_path = None, expires_at = None, file_size = None,
      conversion_time = None, error = Some e\<rparr>"

section \<open>The conversion worker\<close>

definition quality_map :: "string \<rightharpoonup> string" where
  "quality_map = [''high'' \<mapsto> ''192'', ''medium'' \<mapsto> ''128'', ''low'' \<mapsto> ''96'']"

definition get_ydl_opts :: "string \<Rightarrow> string \<Rightarrow> ydl_opts" where
  "get_ydl_opts output_path quality =
     \<lparr>format = ''bestaudio/best'', outtmpl = output_path,
      preferredquality = (case quality_map quality of None \<Rightarrow> ''192'' | Some q \<Rightarrow> q),
      player_client = [''android'', ''web'']\<rparr>"

definition max_attempts :: nat where
  "max_attempts = 3"

text \<open>
  The \<open>except\<close> and \<open>finally\<close> blocks of \<open>convert_video\<close>: the job becomes the failed
  record and the URL leaves \<open>current_conversions\<close>.
\<close>

definition convert_video_except :: "string \<Rightarrow> string \<Rightarrow> exn \<Rightarrow> video_info option \<Rightarrow> sys \<Rightarrow> sys" where
  "convert_video_except token u e info s =
     s\<lparr>jobs := AList.update token (failed_job u e info) (jobs s),
       current_conversions := current_conversions s - {u}\<rparr>"

text \<open>
  From the entry of \<open>convert_video\<close> to its first suspension: the duplicate check, the
  metadata lookup, the record of status Processing. The result is the state and, when
  the worker goes on, its local variables \<open>info\<close>, \<open>output_path\<close> and \<open>ydl_opts\<close>.
  \<open>str(DOWNLOAD_DIR / base_filename)\<close> is the directory, a slash and the name, the id
  being taken to hold no slash (the sanitized title holds none).
\<close>

definition convert_video_begin ::
  "resolver \<Rightarrow> string \<Rightarrow> string \<Rightarrow> string \<Rightarrow> time \<Rightarrow> sys
     \<Rightarrow> (video_info \<times> string \<times> ydl_opts) option \<times> sys" where
  "convert_video_begin resolve token u quality now s =
     (if u \<in> current_conversions s
      then (None, convert_video_except token u
                    (HTTPException 400 ''This video is already being converted'') None s)
      else
        let s1 = s\<lparr>current_conversions := insert u (current_conversions s)\<rparr> in
        case get_video_info resolve u of
          Inl e \<Rightarrow> (None, convert_video_except token u e None s1)
        | Inr info \<Rightarrow>
            let sanitized_title = sanitize_filename (title info);
                base_filename = sanitized_title @ ''-'' @ vid info;
                output_path = ''downloads/'' @ base_filename
            in (Some (info, output_path, get_ydl_opts output_path quality),
                s1\<lparr>jobs := AList.update token (processing_job u base_filename info now) (jobs s1)\<rparr>))"

text \<open>The options for the run after the failed run number \<open>attempt\<close>.\<close>

definition next_attempt_opts :: "nat \<Rightarrow> ydl_opts \<Rightarrow> ydl_opts" where
  "next_attempt_opts attempt opts =
     opts\<lparr>format := (if attempt = 0 then ''bestaudio/best'' else ''bestaudio''),
          player_client := (if attempt = 1 then [''android''] else [''web''])\<rparr>"

text \<open>
  The search for the output file: the first of the four candidate names that exists,
  else the bare output path, else \<open>FileNotFoundError\<close>.
\<close>

definition locate_output :: "fsys \<Rightarrow> string \<Rightarrow> exn + string" where
  "locate_output d output_path =
     (case find (\<lambda>candidate. d candidate \<noteq> None)
             (map (\<lambda>ext. output_path @ ext) [''.mp3'', ''.m4a'', ''.webm'', ''.part'']) of
        Some candidate \<Rightarrow> Inr candidate
      | None \<Rightarrow>
          if d output_path \<noteq> None then Inr output_path
          else Inl (FileNotFoundError ''No output file found after conversion''))"

text \<open>\<open>os.rename\<close>, replacing the target as POSIX does, and \<open>os.remove\<close>.\<close>

definition os_rename :: "string \<Rightarrow> string \<Rightarrow> fsys \<Rightarrow> fsys" where
  "os_rename src dst d = (if src = dst then d else (d(dst := d src))(src := None))"

definition os_remove :: "string \<Rightarrow> fsys \<Rightarrow> fsys" where
  "os_remove p d = d(p := None)"

text \<open>
  The code after the retry loop, up to the assignment of the completed record. The
  result is the exception that escapes, if any, and the state at that point: the
  renaming and the removal stay done when a later line raises. \<open>now1\<close> and \<open>now2\<close> are
  the two clock readings.
\<close>

definition convert_video_output ::
  "string \<Rightarrow> string \<Rightarrow> video_info \<Rightarrow> string \<Rightarrow> time \<Rightarrow> time \<Rightarrow> sys \<Rightarrow> exn option \<times> sys" where
  "convert_video_output token u info output_path now1 now2 s =
     (case locate_output (disk s) output_path of
        Inl e \<Rightarrow> (Some e, s)
      | Inr found \<Rightarrow>
          let actual_file = (if suffix ''.mp3'' found then found else rsplit_dot_head found @ ''.mp3'');
              s1 = (if suffix ''.mp3'' found then s
                    else s\<lparr>disk := os_rename found actual_file (disk s)\<rparr>)
          in (case disk s1 actual_file of
                None \<Rightarrow> (Some (FileNotFoundError actual_file), s1)
              | Some f \<Rightarrow>
                  if fsize f < 100 * 1024
                  then (Some (FileTooSmall (fsize f)), s1\<lparr>disk := os_remove actual_file (disk s1)\<rparr>)
                  else
                    (case map_of (jobs s1) token of
                       None \<Rightarrow> (Some (KeyError token), s1)
                     | Some j \<Rightarrow>
                         (case start_time j of
                            None \<Rightarrow> (Some (KeyError ''start_time''), s1)
                          | Some t0 \<Rightarrow>
                              (None, s1\<lparr>jobs := AList.update token
                                   (completed_job u actual_file info (fsize f) (now1 - t0) now2)
                                   (jobs s1)\<rparr>)))))"

text \<open>
  The end of the worker after a run of the extractor that raised nothing: the code
  above, then the \<open>except\<close> branch if it raised, then \<open>finally\<close>.
\<close>

definition convert_video_finish ::
  "string \<Rightarrow> string \<Rightarrow> video_info \<Rightarrow> string \<Rightarrow> time \<Rightarrow> time \<Rightarrow> sys \<Rightarrow> sys" where
  "convert_video_finish token u info output_path now1 now2 s =
     (case convert_video_output token u info output_path now1 now2 s of
        (Some e, s1) \<Rightarrow> convert_video_except token u e (Some info) s1
      | (None, s1) \<Rightarrow> s1\<lparr>current_conversions := current_conversions s1 - {u}\<rparr>)"

text \<open>
  The retry loop. The extractor is outside the program: \<open>extract attempt opts d\<close> is
  what its run number \<open>attempt\<close> does with options \<open>opts\<close> on the disk \<open>d\<close>, namely the
  exception it raises, if any, and the disk it leaves. The loop walks
  \<open>range(max_attempts)\<close> and records each call of the extractor and each sleep, with its
  seconds.
\<close>

type_synonym extractor = "nat \<Rightarrow> ydl_opts \<Rightarrow> fsys \<Rightarrow> exn option \<times> fsys"

datatype event = Extract ydl_opts | Sleep nat

fun download_attempts ::
  "extractor \<Rightarrow> nat list \<Rightarrow> ydl_opts \<Rightarrow> fsys \<Rightarrow> event list \<Rightarrow> exn option \<times> fsys \<times> event list" where
  "download_attempts extract [] opts d trace = (None, d, trace)"
| "download_attempts extract (attempt # rest) opts d trace =
     (case extract attempt opts d of
        (None, d') \<Rightarrow> (None, d', trace @ [Extract opts])
      | (Some e, d') \<Rightarrow>
          if attempt = max_attempts - 1 then (Some e, d', trace @ [Extract opts])
          else download_attempts extract rest (next_attempt_opts attempt opts) d'
                 (trace @ [Extract opts, Sleep 2]))"

text \<open>
  One whole run of \<open>convert_video\<close> with nothing else scheduled in between: the final
  state and the trace of the retry loop. \<open>now0\<close>, \<open>now1\<close> and \<open>now2\<close> are the three clock
  readings.
\<close>

definition convert_video ::
  "resolver \<Rightarrow> extractor \<Rightarrow> string \<Rightarrow> string \<Rightarrow> string \<Rightarrow> time \<Rightarrow> time \<Rightarrow> time \<Rightarrow> sys
     \<Rightarrow> sys \<times> event list" where
  "convert_video resolve extract token u quality now0 now1 now2 s =
     (case convert_video_begin resolve token u quality now0 s of
        (None, s1) \<Rightarrow> (s1, [])
      | (Some (info, output_path, opts), s1) \<Rightarrow>
          (case download_attempts extract [0..<max_attempts] opts (disk s1) [] of
             (Some e, d, trace) \<Rightarrow> (convert_video_except token u e (Some info) (s1\<lparr>disk := d\<rparr>), trace)
           | (None, d, trace) \<Rightarrow>
               (convert_video_finish token u info output_path now1 now2 (s1\<lparr>disk := d\<rparr>), trace)))"

text \<open>
  \<open>progress_hook\<close>, called by the extractor while it runs. The three texts of a
  \<open>downloading\<close> event are the values after their \<open>.get\<close> defaults. The message is
  \<open>f"Downloading: {percent} at {speed} (ETA: {eta})"\<close>.
\<close>

datatype progress_event = DownloadingEvent string string string | FinishedEvent | OtherEvent

definition progress_hook :: "string \<Rightarrow> progress_event \<Rightarrow> sys \<Rightarrow> exn + sys" where
  "progress_hook token d s =
     (case d of
        OtherEvent \<Rightarrow> Inr s
      | _ \<Rightarrow>
        (case map_of (jobs s) token of
           None \<Rightarrow> Inl (KeyError token)
         | Some j \<Rightarrow>
             Inr (s\<lparr>jobs := AList.update token
                    (j\<lparr>progress := Some
                        (case d of
                           DownloadingEvent percent speed eta \<Rightarrow>
                             ''Downloading: '' @ percent @ '' at '' @ speed @ '' (ETA: '' @ eta @ '')''
                         | _ \<Rightarrow> ''Converting to MP3...'')\<rparr>)
                    (jobs s)\<rparr>)))"

section \<open>The reaper\<close>

text \<open>\<open>job.get('expires_at', 0)\<close>.\<close>

definition expiry_of :: "job \<Rightarrow> time" where
  "expiry_of j = (case expires_at j of None \<Rightarrow> 0 | Some t \<Rightarrow> t)"

text \<open>The body of the \<open>for\<close> loop of \<open>cleanup_old_files\<close>, for one entry of the snapshot.\<close>

definition cleanup_entry :: "time \<Rightarrow> string \<times> job \<Rightarrow> sys \<Rightarrow> sys" where
  "cleanup_entry current_time entry s =
     (case entry of (token, j) \<Rightarrow>
        if expiry_of j < current_time then
          let s1 = (case file_path j of
                      None \<Rightarrow> s
                    | Some p \<Rightarrow>
                        if p \<noteq> [] \<and> disk s p \<noteq> None then s\<lparr>disk := os_remove p (disk s)\<rparr> else s)
          in if status j \<noteq> Processing then s1\<lparr>jobs := AList.delete token (jobs s1)\<rparr> else s1
        else s)"

text \<open>
  One pass of the \<open>while True\<close> loop: the \<open>for\<close> loop over \<open>list(jobs.items())\<close>.
  Nothing in the body raises here: every record has a status, every token of the
  snapshot is still a key, and removing a file that is on the disk succeeds.
\<close>

definition cleanup_old_files :: "time \<Rightarrow> sys \<Rightarrow> sys" where
  "cleanup_old_files current_time s = fold (cleanup_entry current_time) (jobs s) s"

section \<open>The endpoints\<close>

text \<open>
  The \<open>url\<close> field of a request is declared \<open>HttpUrl\<close>: a URL object of the validation
  library, not a \<open>str\<close>. \<open>url_text\<close> is \<open>str(request.url)\<close>, the text that the record and
  the worker get. \<open>url_equals_str v x\<close> is \<open>v == x\<close> for such an object \<open>v\<close> and a \<open>str\<close>
  \<open>x\<close>: an object of that type is equal only to objects of its type, never to a text,
  whatever the text is.
\<close>

datatype http_url = HttpUrl string

fun url_text :: "http_url \<Rightarrow> string" where
  "url_text (HttpUrl text) = text"

definition url_equals_str :: "http_url \<Rightarrow> string \<Rightarrow> bool" where
  "url_equals_str v x \<longleftrightarrow> False"

text \<open>
  \<open>POST /convert\<close>. \<open>token\<close> is the value of \<open>str(uuid.uuid4())\<close>. The two tests of the
  duplicate check, \<open>request.url in current_conversions\<close> and
  \<open>v.get('url') == request.url\<close>, compare the URL object itself, not its text, with the
  texts in the set and in the records. \<open>if existing_token\<close> fails for no token and for the
  empty one. The answer is the token and the message.
\<close>

definition start_conversion :: "string \<Rightarrow> http_url \<Rightarrow> string \<Rightarrow> sys \<Rightarrow> (string \<times> string) \<times> sys" where
  "start_conversion token request_url quality s =
     (let existing_token =
            (if \<exists>x \<in> current_conversions s. url_equals_str request_url x
             then map_option fst
                    (find (\<lambda>(k, v). url_equals_str request_url (url v) \<and> status v = Processing) (jobs s))
             else None)
      in case existing_token of
           Some k \<Rightarrow>
             if k \<noteq> [] then ((k, ''Conversion already in progress''), s)
             else ((token, ''Conversion started''),
                   s\<lparr>jobs := AList.update token (queued_job (url_text request_url)) (jobs s),
                     tasks := (tasks s)(token \<mapsto> Pending (url_text request_url) quality)\<rparr>)
         | None \<Rightarrow>
             ((token, ''Conversion started''),
              s\<lparr>jobs := AList.update token (queued_job (url_text request_url)) (jobs s),
                tasks := (tasks s)(token \<mapsto> Pending (url_text request_url) quality)\<rparr>))"

text \<open>\<open>GET /status/{token}\<close>.\<close>

definition get_status :: "string \<Rightarrow> sys \<Rightarrow> exn + job" where
  "get_status token s =
     (case map_of (jobs s) token of
        None \<Rightarrow> Inl (HTTPException 404 ''Job not found'')
      | Some j \<Rightarrow> Inr j)"

text \<open>
  \<open>GET /download/{token}\<close>. The answer is a \<open>FileResponse\<close>: the path it streams, the
  media type, the file name and the \<open>Content-Disposition\<close> header.
\<close>

record file_response =
  path :: string
  media_type :: string
  response_filename :: string
  content_disposition :: string

definition download_file :: "string \<Rightarrow> time \<Rightarrow> sys \<Rightarrow> (exn + file_response) \<times> sys" where
  "download_file token now s =
     (case map_of (jobs s) token of
        None \<Rightarrow> (Inl (HTTPException 404 ''File not ready or expired''), s)
      | Some j \<Rightarrow>
          if status j \<noteq> Completed then (Inl (HTTPException 404 ''File not ready or expired''), s)
          else
            (case file_path j of
               None \<Rightarrow> (Inl (HTTPException 404 ''File not found''), s)
             | Some p \<Rightarrow>
                 if p = [] \<or> disk s p = None then (Inl (HTTPException 404 ''File not found''), s)
                 else
                   let s1 = s\<lparr>jobs := AList.update token
                                (j\<lparr>expires_at := Some (now + FILE_EXPIRY_MINUTES * 60)\<rparr>) (jobs s)\<rparr>
                   in (case filename j of
                         None \<Rightarrow> (Inl (KeyError ''filename''), s1)
                       | Some f \<Rightarrow>
                           (Inr \<lparr>path = p, media_type = ''audio/mpeg'', response_filename = f,
                                 content_disposition = ''attachment; filename='' @ [CHR 0x22] @ f @ [CHR 0x22]\<rparr>,
                            s1))))"

section \<open>The running service\<close>

text \<open>
  \<open>run_conversion\<close>, from the moment the task holds the semaphore: it takes a permit
  and runs \<open>convert_video\<close> up to the first run of the extractor, where the task
  suspends; when \<open>convert_video\<close> ends before, the task returns and gives the permit
  back.
\<close>

definition run_conversion :: "resolver \<Rightarrow> string \<Rightarrow> string \<Rightarrow> string \<Rightarrow> time \<Rightarrow> sys \<Rightarrow> sys" where
  "run_conversion resolve token u quality now s =
     (case convert_video_begin resolve token u quality now (s\<lparr>permits := permits s - 1\<rparr>) of
        (None, s1) \<Rightarrow> s1\<lparr>tasks := (tasks s1)(token \<mapsto> Finished), permits := permits s1 + 1\<rparr>
      | (Some (info, output_path, opts), s1) \<Rightarrow>
          s1\<lparr>tasks := (tasks s1)(token \<mapsto> Downloading u info output_path opts 0)\<rparr>)"

text \<open>
  What the worker does when a run of the extractor returns: the rest of
  \<open>convert_video\<close>, then the task returns and gives the permit back.
\<close>

definition attempt_succeeded ::
  "string \<Rightarrow> string \<Rightarrow> video_info \<Rightarrow> string \<Rightarrow> time \<Rightarrow> time \<Rightarrow> sys \<Rightarrow> sys" where
  "attempt_succeeded token u info output_path now1 now2 s =
     (convert_video_finish token u info output_path now1 now2 s)
       \<lparr>tasks := (tasks s)(token \<mapsto> Finished), permits := permits s + 1\<rparr>"

text \<open>
  What the worker does when the extractor's run number \<open>attempt\<close> raises \<open>e\<close>: the last
  run re-raises into the \<open>except\<close> and \<open>finally\<close> blocks and the task returns, releasing
  the semaphore; an earlier run changes the options and goes to sleep.
\<close>

definition attempt_failed ::
  "string \<Rightarrow> string \<Rightarrow> video_info \<Rightarrow> string \<Rightarrow> ydl_opts \<Rightarrow> nat \<Rightarrow> exn \<Rightarrow> sys \<Rightarrow> sys" where
  "attempt_failed token u info output_path opts attempt e s =
     (if attempt = max_attempts - 1
      then (convert_video_except token u e (Some info) s)
             \<lparr>tasks := (tasks s)(token \<mapsto> Finished), permits := permits s + 1\<rparr>
      else s\<lparr>tasks := (tasks s)(token \<mapsto>
                Sleeping u info output_path (next_attempt_opts attempt opts) attempt)\<rparr>)"

text \<open>
  One atomic step of the service. All handlers and workers run on one event loop, so
  the code between two suspension points runs alone; the extractor runs on a thread of
  its own and may call the progress hook and write to the disk at any moment of a run.
  \<^item> \<open>step_submit\<close>: a request to \<open>POST /convert\<close>, with a token that no earlier request got;
    the request may be for any URL, also one whose conversion is in progress;
  \<^item> \<open>step_enter\<close>: a waiting task gets the semaphore and runs \<open>convert_video\<close> up to the
    first run of the extractor, or to its end when it fails before;
  \<^item> \<open>step_hook\<close>, \<open>step_write\<close>: the running extractor reports progress, or writes the disk;
  \<^item> \<open>step_failed\<close>, \<open>step_wake\<close>: a run raises; the sleep before the next run ends;
  \<^item> \<open>step_succeeded\<close>: a run returns and the worker finishes;
  \<^item> \<open>step_download\<close>: a request to \<open>GET /download/{token}\<close>;
  \<^item> \<open>step_reap\<close>: one pass of the cleanup loop.
  \<open>GET /status\<close>, \<open>GET /health\<close> and \<open>POST /video/metadata\<close> change nothing of the state.
\<close>

inductive step :: "sys \<Rightarrow> sys \<Rightarrow> bool" where
  step_submit:
    "tasks s token = None \<Longrightarrow> start_conversion token request_url quality s = (answer, s') \<Longrightarrow>
     step s s'"
| step_enter:
    "tasks s token = Some (Pending u quality) \<Longrightarrow> 0 < permits s \<Longrightarrow>
     step s (run_conversion resolve token u quality now s)"
| step_hook:
    "tasks s token = Some (Downloading u info output_path opts attempt) \<Longrightarrow>
     progress_hook token d s = Inr s' \<Longrightarrow> step s s'"
| step_write:
    "tasks s token = Some (Downloading u info output_path opts attempt) \<Longrightarrow>
     step s (s\<lparr>disk := d\<rparr>)"
| step_failed:
    "tasks s token = Some (Downloading u info output_path opts attempt) \<Longrightarrow>
     step s (attempt_failed token u info output_path opts attempt e s)"
| step_wake:
    "tasks s token = Some (Sleeping u info output_path opts attempt) \<Longrightarrow>
     step s (s\<lparr>tasks := (tasks s)(token \<mapsto> Downloading u info output_path opts (attempt + 1))\<rparr>)"
| step_succeeded:
    "tasks s token = Some (Downloading u info output_path opts attempt) \<Longrightarrow>
     step s (attempt_succeeded token u info output_path now1 now2 s)"
| step_download:
    "download_file token now s = (answer, s') \<Longrightarrow> step s s'"
| step_reap:
    "step s (cleanup_old_files now s)"

text \<open>The states the service can be in: those that steps reach from the start.\<close>

definition reachable :: "sys \<Rightarrow> bool" where
  "reachable s \<longleftrightarrow> step\<^sup>*\<^sup>* init s"

section \<open>Notions used in the properties\<close>

text \<open>An entry that the cleanup loop removes from \<open>jobs\<close> at time \<open>now\<close>.\<close>

definition removable :: "time \<Rightarrow> string \<times> job \<Rightarrow> bool" where
  "removable now entry \<longleftrightarrow> expiry_of (snd entry) < now \<and> status (snd entry) \<noteq> Processing"



fun is_Extract :: "event \<Rightarrow> bool" where
  "is_Extract (Extract opts) = True"
| "is_Extract (Sleep n) = False"

text \<open>
  The longest trace of the retry loop that starts with the options \<open>opts\<close>: three runs
  of the extractor, a sleep of two seconds before the second and the third.
\<close>

definition schedule :: "ydl_opts \<Rightarrow> event list" where
  "schedule opts =
     [Extract opts, Sleep 2, Extract (next_attempt_opts 0 opts), Sleep 2,
      Extract (next_attempt_opts 1 (next_attempt_opts 0 opts))]"

text \<open>
  The specification's word for the change of options between two runs is
  ``relaxing''. Read at its weakest: the next run accepts every format alternative (the
  parts of the format text between slashes, tried in turn) and every player client that
  the failed run accepted.
\<close>

definition format_alternatives :: "ydl_opts \<Rightarrow> string set" where
  "format_alternatives opts = set (py_split ''/'' (format opts))"

definition relaxed_selection :: "ydl_opts \<Rightarrow> ydl_opts \<Rightarrow> bool" where
  "relaxed_selection old new \<longleftrightarrow>
     format_alternatives old \<subseteq> format_alternatives new \<and>
     set (player_client old) \<subseteq> set (player_client new)"

text \<open>
  The stages of a status and of a task. \<open>Completed\<close> and \<open>Failed\<close> are the two
  statuses of the last stage.
\<close>

fun rank :: "status \<Rightarrow> nat" where
  "rank Queued = 0"
| "rank Processing = 1"
| "rank Completed = 2"
| "rank Failed = 2"

fun stage :: "task \<Rightarrow> nat" where
  "stage (Pending u quality) = 0"
| "stage (Downloading u info output_path opts attempt) = 1"
| "stage (Sleeping u info output_path opts attempt) = 1"
| "stage Finished = 2"

text \<open>
  What holds of every record in every state the service reaches: a completed record
  has a size of at least 100 KiB, a path, a file name and an expiry; any other record
  has neither expiry nor path.
\<close>

definition job_ok :: "job \<Rightarrow> bool" where
  "job_ok j \<longleftrightarrow>
     (if status j = Completed
      then (\<exists>n. file_size j = Some n \<and> 100 * 1024 \<le> n) \<and> file_path j \<noteq> None \<and>
           filename j \<noteq> None \<and> expires_at j \<noteq> None
      else expires_at j = None \<and> file_path j = None)"

text \<open>
  The names of the worker. \<open>candidates\<close> lists, in the order of the search, the names
  under which the worker looks for the output: the output path with each of the four
  extensions, then the bare output path. \<open>mp3_name\<close> is the name the file found has
  after the renaming: itself when it ends in \<open>.mp3\<close>, else its text before the last dot
  with \<open>.mp3\<close>. \<open>output_path_of\<close> is the output path the worker derives from the
  metadata, with the sanitized title; \<open>output_names\<close> are the names a recorded file can
  have for that metadata.
\<close>

definition candidates :: "string \<Rightarrow> string list" where
  "candidates output_path =
     [output_path @ ''.mp3'', output_path @ ''.m4a'', output_path @ ''.webm'', output_path @ ''.part'',
      output_path]"

definition mp3_name :: "string \<Rightarrow> string" where
  "mp3_name found = (if suffix ''.mp3'' found then found else rsplit_dot_head found @ ''.mp3'')"

definition output_path_of :: "video_info \<Rightarrow> string" where
  "output_path_of info = ''downloads/'' @ sanitize_filename (title info) @ ''-'' @ vid info"

definition output_names :: "video_info \<Rightarrow> string list" where
  "output_names info = map mp3_name (candidates (output_path_of info))"

text \<open>
  A completed record names its file after the sanitized title: for some metadata with
  the recorded title, the path is one of the output names and the file name is its
  last component.
\<close>

definition job_named :: "job \<Rightarrow> bool" where
  "job_named j \<longleftrightarrow>
     (status j = Completed \<longrightarrow>
        (\<exists>info p. p \<in> set (output_names info) \<and> file_path j = Some p \<and>
           filename j = Some (basename p) \<and> video_title j = Some (title info)))"

text \<open>A task past the metadata lookup holds the output path of its metadata.\<close>

fun task_ok :: "task \<Rightarrow> bool" where
  "task_ok (Pending u quality) = True"
| "task_ok (Downloading u info output_path opts attempt) = (output_path = output_path_of info)"
| "task_ok (Sleeping u info output_path opts attempt) = (output_path = output_path_of info)"
| "task_ok Finished = True"

text \<open>
  The invariant of the service: the keys of \<open>jobs\<close> are distinct, every record
  belongs to a task whose stage is the stage of the record's status, and records and
  tasks are named as above.
\<close>

definition invariant :: "sys \<Rightarrow> bool" where
  "invariant s \<longleftrightarrow>
     distinct (map fst (jobs s)) \<and>
     (\<forall>t j. map_of (jobs s) t = Some j \<longrightarrow>
        job_ok j \<and> job_named j \<and> (\<exists>a. tasks s t = Some a \<and> stage a = rank (status j))) \<and>
     (\<forall>t a. tasks s t = Some a \<longrightarrow> task_ok a)"

text \<open>
  The two shapes of a step that is not a pass of the cleanup loop. \<open>writes\<close>: the step
  stores the record \<open>J\<close> under \<open>token\<close> and leaves the token's task at \<open>a\<close>, no earlier
  in its course than before; a task that had returned keeps its record's status.
  \<open>retasks\<close>: the step leaves \<open>jobs\<close> alone and moves at most one task within its stage.
\<close>

definition writes :: "sys \<Rightarrow> sys \<Rightarrow> string \<Rightarrow> job \<Rightarrow> task \<Rightarrow> bool" where
  "writes s s' token J a \<longleftrightarrow>
     jobs s' = AList.update token J (jobs s) \<and> tasks s' = (tasks s)(token \<mapsto> a) \<and>
     job_ok J \<and> job_named J \<and> task_ok a \<and> stage a = rank (status J) \<and>
     (case tasks s token of
        None \<Rightarrow> True
      | Some a0 \<Rightarrow> stage a0 \<le> stage a \<and>
          (a0 = Finished \<longrightarrow> (\<exists>j. map_of (jobs s) token = Some j \<and> status J = status j)))"

definition retasks :: "sys \<Rightarrow> sys \<Rightarrow> bool" where
  "retasks s s' \<longleftrightarrow>
     jobs s' = jobs s \<and>
     (tasks s' = tasks s \<or>
      (\<exists>token a0 a. tasks s token = Some a0 \<and> tasks s' = (tasks s)(token \<mapsto> a) \<and>
         stage a = stage a0 \<and> task_ok a))"

section \<open>Example runs\<close>

text \<open>
  A video with a resolver that knows it, and three extractors: one that writes a
  transcoded MP3 of 200000 bytes, one that returns normally but leaves only a partial
  download of that size, and one that always raises and leaves 5000 bytes of partial
  data.
\<close>

definition song :: video_info where
  "song = \<lparr>title = ''Song'', vid = ''abc''\<rparr>"

definition song_url :: string where
  "song_url = ''https://youtu.be/abc''"

definition shorts_url :: string where
  "shorts_url = ''https://www.youtube.com/shorts/abc''"

definition resolve_song :: resolver where
  "resolve_song = (\<lambda>u video_id. Inr song)"

definition mp3_extractor :: extractor where
  "mp3_extractor = (\<lambda>attempt opts d.
     (None, d(outtmpl opts @ ''.mp3'' \<mapsto> \<lparr>fsize = 200000, fkind = Mp3Audio\<rparr>)))"

definition partial_extractor :: extractor where
  "partial_extractor = (\<lambda>attempt opts d.
     (None, d(outtmpl opts @ ''.part'' \<mapsto> \<lparr>fsize = 200000, fkind = PartialData\<rparr>)))"

definition failing_extractor :: extractor where
  "failing_extractor = (\<lambda>attempt opts d.
     (Some (ExtractorError (if attempt = 2 then ''third run'' else ''earlier run'')),
      d(outtmpl opts @ ''.part'' \<mapsto> \<lparr>fsize = 5000, fkind = PartialData\<rparr>)))"

text \<open>
  Two requests for the same video before either worker has started, then the two
  workers: the first suspends in the extractor, the second is turned away.
\<close>

definition race_1 :: sys where
  "race_1 = snd (start_conversion ''T1'' (HttpUrl song_url) ''high'' init)"

definition race_2 :: sys where
  "race_2 = snd (start_conversion ''T2'' (HttpUrl song_url) ''high'' race_1)"

definition race_3 :: sys where
  "race_3 = run_conversion resolve_song ''T1'' song_url ''high'' 1000 race_2"

definition race_4 :: sys where
  "race_4 = run_conversion resolve_song ''T2'' song_url ''high'' 1001 race_3"

text \<open>
  Two conversions of the same video, one after the other, completed at times 1000 and
  1100, and a conversion of a URL without video id that fails at time 1605.
\<close>

definition life_1 :: sys where
  "life_1 = snd (start_conversion ''A'' (HttpUrl song_url) ''high'' init)"

definition life_2 :: sys where
  "life_2 = run_conversion resolve_song ''A'' song_url ''high'' 990 life_1"

definition song_file :: artifact where
  "song_file = \<lparr>fsize = 200000, fkind = Mp3Audio\<rparr>"

definition life_3 :: sys where
  "life_3 = life_2\<lparr>disk := [''downloads/Song-abc.mp3'' \<mapsto> song_file]\<rparr>"

definition life_4 :: sys where
  "life_4 = attempt_succeeded ''A'' song_url song ''downloads/Song-abc'' 1000 1000 life_3"

definition life_5 :: sys where
  "life_5 = snd (start_conversion ''B'' (HttpUrl song_url) ''low'' life_4)"

definition life_6 :: sys where
  "life_6 = run_conversion resolve_song ''B'' song_url ''low'' 1095 life_5"

definition life_7 :: sys where
  "life_7 = attempt_succeeded ''B'' song_url song ''downloads/Song-abc'' 1100 1100 life_6"

definition life_8 :: sys where
  "life_8 = snd (start_conversion ''C'' (HttpUrl shorts_url) ''high'' life_7)"

definition life_9 :: sys where
  "life_9 = run_conversion resolve_song ''C'' shorts_url ''high'' 1605 life_8"

text \<open>
  The end of one run of the worker alone from the first request, its task returned:
  with the extractor that leaves a partial download, and with the one that always
  raises.
\<close>

definition partial_run :: sys where
  "partial_run =
     (fst (convert_video resolve_song partial_extractor ''T1'' song_url ''high'' 1000 1010 1010 race_1))
       \<lparr>tasks := (tasks race_1)(''T1'' \<mapsto> Finished)\<rparr>"

definition failed_run :: sys where
  "failed_run =
     (fst (convert_video resolve_song failing_extractor ''T1'' song_url ''high'' 1000 1010 1010 race_1))
       \<lparr>tasks := (tasks race_1)(''T1'' \<mapsto> Finished)\<rparr>"

text \<open>
  The state of the first worker of the race after a run of the extractor that left an
  untranscoded file of 5000 bytes; and a third request for the same video after the
  race.
\<close>

definition small_output :: sys where
  "small_output =
     race_3\<lparr>disk := [''downloads/Song-abc.m4a'' \<mapsto> \<lparr>fsize = 5000, fkind = SourceMedia\<rparr>]\<rparr>"

definition race_5 :: sys where
  "race_5 = snd (start_conversion ''T3'' (HttpUrl song_url) ''high'' race_4)"

definition partial_data :: artifact where
  "partial_data = \<lparr>fsize = 5000, fkind = PartialData\<rparr>"

definition partial_download :: artifact where
  "partial_download = \<lparr>fsize = 200000, fkind = PartialData\<rparr>"

text \<open>
  The state of the first worker of the race after a run of the extractor that left only
  its partial download, of 200000 bytes.
\<close>

definition part_output :: sys where
  "part_output = race_3\<lparr>disk := [''downloads/Song-abc.part'' \<mapsto> partial_download]\<rparr>"

section \<open>Properties of the string functions\<close>

lemma split_from_nonempty: "split_from sep acc s \<noteq> []"
  by (induction sep acc s rule: split_from.induct) auto

lemma split_from_two: "sep \<noteq> [] \<Longrightarrow> contains sep s \<Longrightarrow> 2 \<le> length (split_from sep acc s)"
proof (induction sep acc s rule: split_from.induct)
  case (1 sep acc)
  then show ?case by simp
next
  case (2 sep acc c cs)
  show ?case
  proof (cases "prefix sep (c # cs)")
    case True
    have "split_from sep [] (drop (length sep) (c # cs)) \<noteq> []"
      by (rule split_from_nonempty)
    then have "1 \<le> length (split_from sep [] (drop (length sep) (c # cs)))"
      by (cases "split_from sep [] (drop (length sep) (c # cs))") auto
    with True 2(3) show ?thesis by simp
  next
    case False
    with 2 show ?thesis by simp
  qed
qed

lemma get_video_id_no_IndexError: "get_video_id u \<noteq> Inl IndexError"
proof -
  have "\<exists>a x r. py_split ''v='' u = a # x # r" if "contains ''v='' u"
  proof -
    from that have "2 \<le> length (py_split ''v='' u)"
      unfolding py_split_def by (intro split_from_two) auto
    then show ?thesis
      by (cases "py_split ''v='' u"; cases "tl (py_split ''v='' u)") auto
  qed
  then show ?thesis
    by (auto simp: get_video_id_def)
qed

section \<open>URLs without a video id\<close>

text \<open>
  C10. A URL that contains \<open>youtube.com\<close> but neither \<open>v=\<close> nor \<open>youtu.be\<close> gets no id
  from \<open>get_video_id\<close>; \<open>get_video_info\<close> raises \<open>ValueError("Invalid YouTube URL")\<close>
  whatever the resolver would answer; \<open>POST /video/metadata\<close> answers 400; the worker
  ends at once, before any run of the extractor, with the job's status Failed, from
  every state. Such URLs exist that match the validator's expression.
\<close>

theorem url_without_video_id_fails:
  assumes "contains ''youtube.com'' u" and "\<not> contains ''v='' u" and "\<not> contains ''youtu.be'' u"
  shows "get_video_id u = Inr None \<and>
         get_video_info resolve u = Inl (ValueError ''Invalid YouTube URL'') \<and>
         get_metadata resolve u = Inl (HTTPExceptionOf 400 (ValueError ''Invalid YouTube URL'')) \<and>
         fst (convert_video_begin resolve token u quality now0 s) = None \<and>
         snd (convert_video resolve extract token u quality now0 now1 now2 s) = [] \<and>
         map_option status
           (map_of (jobs (fst (convert_video resolve extract token u quality now0 now1 now2 s))) token) =
           Some Failed \<and>
         (\<exists>v. contains ''youtube.com'' v \<and> \<not> contains ''v='' v \<and> \<not> contains ''youtu.be'' v \<and>
              matches_youtube_regex v)"
proof -
  have id: "get_video_id u = Inr None"
    using assms by (simp add: get_video_id_def)
  then have info: "get_video_info resolve u = Inl (ValueError ''Invalid YouTube URL'')"
    by (simp add: get_video_info_def)
  then have meta: "get_metadata resolve u = Inl (HTTPExceptionOf 400 (ValueError ''Invalid YouTube URL''))"
    by (simp add: get_metadata_def)
  have b1: "fst (convert_video_begin resolve token u quality now0 s) = None"
    using info by (simp add: convert_video_begin_def Let_def)
  have b2: "map_option status
      (map_of (jobs (snd (convert_video_begin resolve token u quality now0 s))) token) = Some Failed"
    using info
    by (simp add: convert_video_begin_def Let_def convert_video_except_def update_conv' failed_job_def)
  have run: "convert_video resolve extract token u quality now0 now1 now2 s =
      (snd (convert_video_begin resolve token u quality now0 s), [])"
    using b1 by (cases "convert_video_begin resolve token u quality now0 s") (simp add: convert_video_def)
  have ex: "contains ''youtube.com'' shorts_url \<and> \<not> contains ''v='' shorts_url \<and>
        \<not> contains ''youtu.be'' shorts_url \<and> matches_youtube_regex shorts_url"
    by (simp add: shorts_url_def matches_youtube_regex_def after_optional_def after_any_def
          slash_then_rest_def dot_plus_end_def)
  from id info meta b1 b2 ex show ?thesis
    unfolding run by (simp only: fst_conv snd_conv) blast
qed

theorem url_without_video_id_fails_witness:
  "contains ''youtube.com'' shorts_url \<and> \<not> contains ''v='' shorts_url \<and>
   \<not> contains ''youtu.be'' shorts_url \<and> matches_youtube_regex shorts_url \<and>
   get_video_info resolve_song shorts_url = Inl (ValueError ''Invalid YouTube URL'') \<and>
   map_option status
     (map_of (jobs (fst (convert_video resolve_song mp3_extractor ''C'' shorts_url ''high'' 1605 1606 1606 init)))
        ''C'') = Some Failed"
proof -
  have h: "contains ''youtube.com'' shorts_url" "\<not> contains ''v='' shorts_url"
    "\<not> contains ''youtu.be'' shorts_url" "matches_youtube_regex shorts_url"
    by (simp_all add: shorts_url_def matches_youtube_regex_def after_optional_def after_any_def
          slash_then_rest_def dot_plus_end_def)
  from url_without_video_id_fails [OF h(1,2,3), of resolve_song "''C''" "''high''" 1605 init
      mp3_extractor 1606 1606] h
  show ?thesis by simp
qed

section \<open>Properties of the cleanup loop\<close>

lemma cleanup_entry_jobs:
  "jobs (cleanup_entry now e s) = (if removable now e then AList.delete (fst e) (jobs s) else jobs s)"
  by (cases e) (simp add: cleanup_entry_def removable_def Let_def split: option.splits)

lemma cleanup_entry_disk:
  "disk (cleanup_entry now e s) =
     (if expiry_of (snd e) < now then
        (case file_path (snd e) of
           None \<Rightarrow> disk s
         | Some p \<Rightarrow> if p \<noteq> [] then (disk s)(p := None) else disk s)
      else disk s)"
  by (cases e) (auto simp add: cleanup_entry_def Let_def os_remove_def split: option.splits)

lemma fold_cleanup_jobs:
  "jobs (fold (cleanup_entry now) xs s) =
     filter (\<lambda>kv. \<not> (\<exists>e \<in> set xs. removable now e \<and> fst e = fst kv)) (jobs s)"
proof (induction xs arbitrary: s)
  case Nil
  then show ?case by simp
next
  case (Cons e xs)
  have "filter (\<lambda>kv. \<not> (\<exists>e \<in> set xs. removable now e \<and> fst e = fst kv)) (AList.delete (fst e) (jobs s)) =
        filter (\<lambda>kv. fst e \<noteq> fst kv \<and> \<not> (\<exists>e \<in> set xs. removable now e \<and> fst e = fst kv)) (jobs s)"
    by (simp add: AList.delete_eq case_prod_unfold conj_commute)
  then show ?case
    by (auto simp add: Cons cleanup_entry_jobs intro!: filter_cong)
qed

lemma fold_cleanup_disk:
  "disk (fold (cleanup_entry now) xs s) p =
     (if \<exists>e \<in> set xs. expiry_of (snd e) < now \<and> file_path (snd e) = Some p \<and> p \<noteq> []
      then None else disk s p)"
proof (induction xs arbitrary: s)
  case Nil
  then show ?case by simp
next
  case (Cons e xs)
  show ?case
    by (auto simp add: Cons cleanup_entry_disk split: option.splits)
qed

lemma fold_cleanup_tasks: "tasks (fold (cleanup_entry now) xs s) = tasks s"
  by (induction xs arbitrary: s) (auto simp: cleanup_entry_def Let_def split: option.splits prod.splits)

lemma cleanup_old_files_tasks: "tasks (cleanup_old_files now s) = tasks s"
  by (simp add: cleanup_old_files_def fold_cleanup_tasks)

lemma filter_lookup:
  assumes "distinct (map fst xs)"
  shows "map_of (filter P xs) k = Some v \<longleftrightarrow> map_of xs k = Some v \<and> P (k, v)"
  using assms
proof (induction xs)
  case Nil
  then show ?case by simp
next
  case (Cons x xs)
  obtain k' v' where x: "x = (k', v')" by (cases x)
  from Cons x have fresh: "map_of xs k' = None" "map_of (filter P xs) k' = None"
    by (auto simp: map_of_eq_None_iff)
  from Cons x fresh show ?case
    by (cases "k = k'") auto
qed

lemma map_of_unique:
  "distinct (map fst xs) \<Longrightarrow> map_of xs k = Some v \<Longrightarrow> (k, v') \<in> set xs \<Longrightarrow> v' = v"
  by (metis map_of_is_SomeI option.inject)

lemma cleanup_old_files_keeps:
  assumes "distinct (map fst (jobs s))" and "map_of (jobs (cleanup_old_files now s)) t = Some j"
  shows "map_of (jobs s) t = Some j"
  using assms(2) unfolding cleanup_old_files_def fold_cleanup_jobs filter_lookup [OF assms(1)]
  by simp

lemma cleanup_old_files_lookup:
  assumes "distinct (map fst (jobs s))" and "map_of (jobs s) t = Some j"
  shows "map_of (jobs (cleanup_old_files now s)) t = (if removable now (t, j) then None else Some j)"
proof -
  have r: "(\<exists>e \<in> set (jobs s). removable now e \<and> fst e = t) \<longleftrightarrow> removable now (t, j)"
  proof
    assume "\<exists>e \<in> set (jobs s). removable now e \<and> fst e = t"
    then obtain j' where "(t, j') \<in> set (jobs s)" "removable now (t, j')" by auto
    with map_of_unique [OF assms] show "removable now (t, j)" by blast
  next
    assume "removable now (t, j)"
    with map_of_SomeD [OF assms(2)] show "\<exists>e \<in> set (jobs s). removable now e \<and> fst e = t" by force
  qed
  have l: "map_of (jobs (cleanup_old_files now s)) t = Some v \<longleftrightarrow>
      v = j \<and> \<not> removable now (t, j)" for v
    unfolding cleanup_old_files_def fold_cleanup_jobs filter_lookup [OF assms(1)]
    using assms(2) r by auto
  show ?thesis
  proof (cases "removable now (t, j)")
    case True
    with l have "map_of (jobs (cleanup_old_files now s)) t \<noteq> Some v" for v by simp
    with True show ?thesis by (cases "map_of (jobs (cleanup_old_files now s)) t") auto
  next
    case False
    with l show ?thesis by simp
  qed
qed

section \<open>The invariant of the service\<close>

lemma job_ok_simps:
  "job_ok (queued_job u)"
  "job_ok (processing_job u b i n)"
  "job_ok (failed_job u e io)"
  "100 * 1024 \<le> sz \<Longrightarrow> job_ok (completed_job u p i sz el n)"
  "job_named (queued_job u)"
  "job_named (processing_job u b i n)"
  "job_named (failed_job u e io)"
  by (simp_all add: job_ok_def job_named_def queued_job_def processing_job_def failed_job_def
        completed_job_def)

lemma job_named_completed:
  "p \<in> set (output_names i) \<Longrightarrow> job_named (completed_job u p i sz el n)"
  unfolding job_named_def completed_job_def by auto

lemma locate_output_candidate:
  "locate_output d output_path = Inr found \<Longrightarrow> found \<in> set (candidates output_path)"
  by (auto simp: locate_output_def candidates_def find_Some_iff nth_Cons' split: option.splits if_splits)

lemma status_simps:
  "status (queued_job u) = Queued"
  "status (processing_job u b i n) = Processing"
  "status (failed_job u e io) = Failed"
  "status (completed_job u p i sz el n) = Completed"
  by (simp_all add: queued_job_def processing_job_def failed_job_def completed_job_def)

lemma stage_2: "stage a = 2 \<longleftrightarrow> a = Finished"
  by (cases a) auto

lemma invariantD:
  "invariant s \<Longrightarrow> map_of (jobs s) t = Some j \<Longrightarrow>
     job_ok j \<and> (\<exists>a. tasks s t = Some a \<and> stage a = rank (status j))"
  unfolding invariant_def by blast

lemma invariant_named: "invariant s \<Longrightarrow> map_of (jobs s) t = Some j \<Longrightarrow> job_named j"
  unfolding invariant_def by blast

lemma invariant_task: "invariant s \<Longrightarrow> tasks s t = Some a \<Longrightarrow> task_ok a"
  unfolding invariant_def by blast

lemma retasksI:
  "jobs s' = jobs s \<Longrightarrow> tasks s token = Some a0 \<Longrightarrow> tasks s' = (tasks s)(token \<mapsto> a) \<Longrightarrow>
     stage a = stage a0 \<Longrightarrow> task_ok a \<Longrightarrow> retasks s s'"
  unfolding retasks_def by blast

text \<open>The duplicate check never fires: every request stores a new queued record.\<close>

lemma start_conversion_stores:
  "start_conversion token request_url quality s =
     ((token, ''Conversion started''),
      s\<lparr>jobs := AList.update token (queued_job (url_text request_url)) (jobs s),
        tasks := (tasks s)(token \<mapsto> Pending (url_text request_url) quality)\<rparr>)"
  by (simp add: start_conversion_def url_equals_str_def)

lemma begin_effect:
  assumes "convert_video_begin resolve token u quality now s = (r, s1)"
  shows "tasks s1 = tasks s \<and> permits s1 = permits s \<and>
         (case r of
            None \<Rightarrow> \<exists>e. jobs s1 = AList.update token (failed_job u e None) (jobs s)
          | Some (info, output_path, opts) \<Rightarrow>
              output_path = output_path_of info \<and>
              (\<exists>b. jobs s1 = AList.update token (processing_job u b info now) (jobs s)))"
  using assms
  by (auto simp: convert_video_begin_def convert_video_except_def output_path_of_def Let_def
        split: if_splits sum.splits)

lemma run_conversion_effect:
  assumes "tasks s token = Some (Pending u quality)"
  shows "\<exists>J a. writes s (run_conversion resolve token u quality now s) token J a"
proof -
  obtain r s1 where b: "convert_video_begin resolve token u quality now (s\<lparr>permits := permits s - 1\<rparr>) = (r, s1)"
    by (cases "convert_video_begin resolve token u quality now (s\<lparr>permits := permits s - 1\<rparr>)")
  note eff = begin_effect [OF b]
  show ?thesis
  proof (cases r)
    case None
    with eff obtain e where "jobs s1 = AList.update token (failed_job u e None) (jobs s)"
      by auto
    with eff None assms b
    have "writes s (run_conversion resolve token u quality now s) token (failed_job u e None) Finished"
      by (simp add: run_conversion_def writes_def job_ok_simps status_simps)
    then show ?thesis by blast
  next
    case (Some loc)
    obtain info output_path opts where loc: "loc = (info, output_path, opts)" by (cases loc)
    with eff Some obtain b' where "jobs s1 = AList.update token (processing_job u b' info now) (jobs s)"
      and "output_path = output_path_of info"
      by auto
    with eff Some loc assms b
    have "writes s (run_conversion resolve token u quality now s) token
            (processing_job u b' info now) (Downloading u info output_path opts 0)"
      by (simp add: run_conversion_def writes_def job_ok_simps status_simps)
    then show ?thesis by blast
  qed
qed

lemma mp3_name_output:
  "locate_output d (output_path_of info) = Inr found \<Longrightarrow> mp3_name found \<in> set (output_names info)"
  unfolding output_names_def using locate_output_candidate by fastforce

lemma finish_effect:
  "tasks (convert_video_finish token u info (output_path_of info) now1 now2 s) = tasks s \<and>
   permits (convert_video_finish token u info (output_path_of info) now1 now2 s) = permits s \<and>
   (\<exists>J. jobs (convert_video_finish token u info (output_path_of info) now1 now2 s) =
           AList.update token J (jobs s) \<and>
        job_ok J \<and> job_named J \<and> rank (status J) = 2)"
proof (cases "locate_output (disk s) (output_path_of info)")
  case (Inl e)
  have "job_ok (failed_job u e (Some info)) \<and> job_named (failed_job u e (Some info)) \<and>
        rank (status (failed_job u e (Some info))) = 2"
    by (simp add: job_ok_simps status_simps)
  with Inl show ?thesis
    by (auto simp: convert_video_finish_def convert_video_output_def convert_video_except_def)
next
  case (Inr found)
  from mp3_name_output [OF Inr]
  have "job_named (completed_job u (mp3_name found) info sz el n)" for sz el n
    by (rule job_named_completed)
  with Inr show ?thesis
    by (auto simp: convert_video_finish_def convert_video_output_def convert_video_except_def Let_def
          mp3_name_def job_ok_simps status_simps split: option.splits)
qed

lemma progress_hook_effect:
  assumes "progress_hook token d s = Inr s'"
  shows "s' = s \<or> (\<exists>j m. map_of (jobs s) token = Some j \<and>
           s' = s\<lparr>jobs := AList.update token (j\<lparr>progress := Some m\<rparr>) (jobs s)\<rparr>)"
  using assms
  by (cases d) (auto simp: progress_hook_def split: option.splits)

lemma download_file_effect:
  assumes "download_file token now s = (answer, s')"
  shows "s' = s \<or> (\<exists>j. map_of (jobs s) token = Some j \<and> status j = Completed \<and>
           s' = s\<lparr>jobs := AList.update token
                     (j\<lparr>expires_at := Some (now + FILE_EXPIRY_MINUTES * 60)\<rparr>) (jobs s)\<rparr>)"
  using assms
  by (auto simp: download_file_def Let_def split: option.splits if_splits)

text \<open>Every step is a pass of the cleanup loop or has one of the two shapes.\<close>

lemma step_effect:
  assumes "step s s'" and "invariant s"
  shows "(\<exists>now. jobs s' = jobs (cleanup_old_files now s) \<and> tasks s' = tasks s) \<or>
         (\<exists>token J a. writes s s' token J a) \<or> retasks s s'"
  using assms(1)
proof (cases rule: step.cases)
  case (step_submit token request_url quality answer)
  then have "writes s s' token (queued_job (url_text request_url)) (Pending (url_text request_url) quality)"
    by (auto simp: start_conversion_stores writes_def job_ok_simps status_simps)
  then show ?thesis by blast
next
  case (step_enter token u quality resolve now)
  with run_conversion_effect [of s token u quality resolve now] show ?thesis by blast
next
  case (step_hook token u info output_path opts attempt d)
  from progress_hook_effect [OF step_hook(2)] show ?thesis
  proof
    assume "s' = s"
    then show ?thesis by (simp add: retasks_def)
  next
    assume "\<exists>j m. map_of (jobs s) token = Some j \<and>
        s' = s\<lparr>jobs := AList.update token (j\<lparr>progress := Some m\<rparr>) (jobs s)\<rparr>"
    then obtain j m where j: "map_of (jobs s) token = Some j"
      and s': "s' = s\<lparr>jobs := AList.update token (j\<lparr>progress := Some m\<rparr>) (jobs s)\<rparr>"
      by blast
    from invariantD [OF assms(2) j] step_hook(1) have "job_ok j" "rank (status j) = 1"
      by auto
    moreover from invariant_named [OF assms(2) j] have "job_named j" .
    moreover from step_hook
      invariant_task [OF assms(2), of token "Downloading u info output_path opts attempt"]
    have "task_ok (Downloading u info output_path opts attempt)" by simp
    ultimately
    have "writes s s' token (j\<lparr>progress := Some m\<rparr>) (Downloading u info output_path opts attempt)"
      using step_hook(1) by (auto simp: writes_def s' job_ok_def job_named_def)
    then show ?thesis by blast
  qed
next
  case (step_write token u info output_path opts attempt d)
  then show ?thesis by (simp add: retasks_def)
next
  case (step_failed token u info output_path opts attempt e)
  with invariant_task [OF assms(2), of token "Downloading u info output_path opts attempt"]
  have op: "output_path = output_path_of info"
    by simp
  show ?thesis
  proof (cases "attempt = max_attempts - 1")
    case True
    with step_failed have "writes s s' token (failed_job u e (Some info)) Finished"
      by (simp add: attempt_failed_def convert_video_except_def writes_def job_ok_simps status_simps)
    then show ?thesis by blast
  next
    case False
    with step_failed op have "retasks s s'"
      by (intro retasksI [of s' s token "Downloading u info output_path opts attempt"
            "Sleeping u info output_path (next_attempt_opts attempt opts) attempt"])
         (simp_all add: attempt_failed_def)
    then show ?thesis by blast
  qed
next
  case (step_wake token u info output_path opts attempt)
  with invariant_task [OF assms(2), of token "Sleeping u info output_path opts attempt"]
  have "output_path = output_path_of info"
    by simp
  with step_wake have "retasks s s'"
    by (intro retasksI [of s' s token "Sleeping u info output_path opts attempt"
          "Downloading u info output_path opts (attempt + 1)"]) simp_all
  then show ?thesis by blast
next
  case (step_succeeded token u info output_path opts attempt now1 now2)
  with invariant_task [OF assms(2), of token "Downloading u info output_path opts attempt"]
  have op: "output_path = output_path_of info"
    by simp
  from finish_effect [of token u info now1 now2 s]
  obtain J where "jobs (convert_video_finish token u info (output_path_of info) now1 now2 s) =
      AList.update token J (jobs s)"
    "job_ok J" "job_named J" "rank (status J) = 2" by blast
  with step_succeeded op have "writes s s' token J Finished"
    by (simp add: writes_def attempt_succeeded_def)
  then show ?thesis by blast
next
  case (step_download token now answer)
  from download_file_effect [OF step_download] show ?thesis
  proof
    assume "s' = s"
    then show ?thesis by (simp add: retasks_def)
  next
    assume "\<exists>j. map_of (jobs s) token = Some j \<and> status j = Completed \<and>
        s' = s\<lparr>jobs := AList.update token
                  (j\<lparr>expires_at := Some (now + FILE_EXPIRY_MINUTES * 60)\<rparr>) (jobs s)\<rparr>"
    then obtain j where j: "map_of (jobs s) token = Some j" "status j = Completed"
      and s': "s' = s\<lparr>jobs := AList.update token
                  (j\<lparr>expires_at := Some (now + FILE_EXPIRY_MINUTES * 60)\<rparr>) (jobs s)\<rparr>"
      by blast
    from invariantD [OF assms(2) j(1)] j(2) obtain a where a: "job_ok j" "tasks s token = Some a" "stage a = 2"
      by auto
    then have "(tasks s)(token \<mapsto> a) = tasks s" by (simp add: map_upd_triv)
    moreover from invariant_named [OF assms(2) j(1)] have "job_named j" .
    moreover from invariant_task [OF assms(2) a(2)] have "task_ok a" .
    ultimately
    have "writes s s' token (j\<lparr>expires_at := Some (now + FILE_EXPIRY_MINUTES * 60)\<rparr>) a"
      using a j by (auto simp: writes_def s' job_ok_def job_named_def)
    then show ?thesis by blast
  qed
next
  case (step_reap now)
  then show ?thesis by (auto simp: cleanup_old_files_tasks)
qed

lemma step_invariant:
  assumes "step s s'" and "invariant s"
  shows "invariant s'"
proof -
  have d: "distinct (map fst (jobs s))" using assms(2) by (simp add: invariant_def)
  from step_effect [OF assms] consider
    (reap) now where "jobs s' = jobs (cleanup_old_files now s)" "tasks s' = tasks s"
  | (writes) token J a where "writes s s' token J a"
  | (retasks) "retasks s s'" by blast
  then show ?thesis
  proof cases
    case reap
    have "distinct (map fst (jobs s'))"
      using d by (simp add: reap cleanup_old_files_def fold_cleanup_jobs distinct_map_filter)
    moreover have "map_of (jobs s) t = Some j" if "map_of (jobs s') t = Some j" for t j
      using that cleanup_old_files_keeps [OF d] by (simp add: reap)
    moreover have "task_ok a" if "tasks s' t = Some a" for t a
      using that invariant_task [OF assms(2)] by (simp add: reap)
    ultimately show ?thesis
      using invariantD [OF assms(2)] invariant_named [OF assms(2)] reap(2)
      unfolding invariant_def by metis
  next
    case writes
    have "distinct (map fst (jobs s'))"
      using d writes by (simp add: writes_def distinct_update)
    moreover have "job_ok j \<and> job_named j \<and> (\<exists>a. tasks s' t = Some a \<and> stage a = rank (status j))"
      if m: "map_of (jobs s') t = Some j" for t j
    proof (cases "t = token")
      case True
      with m writes show ?thesis by (simp add: writes_def update_conv')
    next
      case False
      with m writes have "map_of (jobs s) t = Some j" "tasks s' t = tasks s t"
        by (simp_all add: writes_def update_conv')
      with invariantD [OF assms(2)] invariant_named [OF assms(2)] show ?thesis by simp
    qed
    moreover have "task_ok b" if m: "tasks s' t = Some b" for t b
    proof (cases "t = token")
      case True
      with m writes show ?thesis by (simp add: writes_def)
    next
      case False
      with m writes have "tasks s t = Some b" by (simp add: writes_def)
      with invariant_task [OF assms(2)] show ?thesis by simp
    qed
    ultimately show ?thesis unfolding invariant_def by blast
  next
    case retasks
    then have j: "jobs s' = jobs s" by (simp add: retasks_def)
    have "\<exists>a. tasks s' t = Some a \<and> stage a = rank (status j)"
      if m: "map_of (jobs s) t = Some j" for t j
    proof -
      from invariantD [OF assms(2) m] obtain a where a: "tasks s t = Some a" "stage a = rank (status j)"
        by blast
      from retasks consider "tasks s' = tasks s"
        | token a0 a' where "tasks s token = Some a0" "tasks s' = (tasks s)(token \<mapsto> a')" "stage a' = stage a0"
        unfolding retasks_def by blast
      then show ?thesis
      proof cases
        case 1
        with a show ?thesis by simp
      next
        case 2
        with a show ?thesis by (cases "t = token") auto
      qed
    qed
    moreover have "task_ok b" if m: "tasks s' t = Some b" for t b
    proof -
      from retasks consider "tasks s' = tasks s"
        | token a' where "tasks s' = (tasks s)(token \<mapsto> a')" "task_ok a'"
        unfolding retasks_def by blast
      then show ?thesis
      proof cases
        case 1
        with m invariant_task [OF assms(2)] show ?thesis by simp
      next
        case 2
        with m invariant_task [OF assms(2), of t b] show ?thesis by (cases "t = token") auto
      qed
    qed
    ultimately show ?thesis
      using invariantD [OF assms(2)] invariant_named [OF assms(2)] d
      unfolding invariant_def j by blast
  qed
qed

lemma invariant_init: "invariant init"
  by (simp add: invariant_def init_def)

lemma reachable_invariant: "reachable s \<Longrightarrow> invariant s"
  unfolding reachable_def
  by (induction rule: rtranclp_induct) (auto intro: invariant_init step_invariant)

text \<open>A task never goes back to an earlier stage.\<close>

lemma step_stage:
  assumes "step s s'" and "invariant s" and "tasks s t = Some a"
  shows "\<exists>b. tasks s' t = Some b \<and> stage a \<le> stage b"
proof -
  from step_effect [OF assms(1,2)] consider
    (reap) now where "jobs s' = jobs (cleanup_old_files now s)" "tasks s' = tasks s"
  | (writes) token J a where "writes s s' token J a"
  | (retasks) "retasks s s'" by blast
  then show ?thesis
  proof cases
    case reap
    with assms(3) show ?thesis by simp
  next
    case writes
    with assms(3) show ?thesis by (cases "t = token") (auto simp: writes_def)
  next
    case retasks
    then consider "tasks s' = tasks s"
      | token a0 a' where "tasks s token = Some a0" "tasks s' = (tasks s)(token \<mapsto> a')" "stage a' = stage a0"
      unfolding retasks_def by blast
    then show ?thesis
    proof cases
      case 1
      with assms(3) show ?thesis by simp
    next
      case 2
      with assms(3) show ?thesis by (cases "t = token") auto
    qed
  qed
qed

text \<open>Once a task has returned, its record keeps its status as long as it exists.\<close>

lemma step_terminal:
  assumes "step s s'" and "invariant s" and "tasks s t = Some Finished" and "map_of (jobs s') t = Some j'"
  shows "\<exists>j. map_of (jobs s) t = Some j \<and> status j' = status j"
proof -
  have d: "distinct (map fst (jobs s))" using assms(2) by (simp add: invariant_def)
  from step_effect [OF assms(1,2)] consider
    (reap) now where "jobs s' = jobs (cleanup_old_files now s)" "tasks s' = tasks s"
  | (writes) token J a where "writes s s' token J a"
  | (retasks) "retasks s s'" by blast
  then show ?thesis
  proof cases
    case reap
    with assms(4) cleanup_old_files_keeps [OF d] show ?thesis by simp
  next
    case writes
    show ?thesis
    proof (cases "t = token")
      case True
      with writes assms(3,4) show ?thesis by (auto simp: writes_def update_conv')
    next
      case False
      with writes assms(4) show ?thesis by (simp add: writes_def update_conv')
    qed
  next
    case retasks
    with assms(4) show ?thesis by (simp add: retasks_def)
  qed
qed

section \<open>The example runs, evaluated\<close>

lemma info_song: "get_video_info resolve_song song_url = Inr song"
  by (simp add: get_video_info_def get_video_id_def song_url_def resolve_song_def py_split_def)

lemma sanitize_song: "sanitize_filename (title song) = ''Song''"
  by (simp add: sanitize_filename_def song_def py_strip_def py_isspace_def hostile_chars_def)

lemma info_shorts: "get_video_info resolve shorts_url = Inl (ValueError ''Invalid YouTube URL'')"
  by (simp add: get_video_info_def get_video_id_def shorts_url_def)

lemma run_conversion_song:
  "song_url \<notin> current_conversions s \<Longrightarrow>
   run_conversion resolve_song token song_url quality now s =
     s\<lparr>jobs := AList.update token (processing_job song_url ''Song-abc'' song now) (jobs s),
       current_conversions := insert song_url (current_conversions s),
       tasks := (tasks s)(token \<mapsto> Downloading song_url song ''downloads/Song-abc''
                  (get_ydl_opts ''downloads/Song-abc'' quality) 0),
       permits := permits s - 1\<rparr>"
  by (simp add: run_conversion_def convert_video_begin_def info_song sanitize_song Let_def)
     (simp add: song_def)

lemma run_conversion_duplicate:
  "u \<in> current_conversions s \<Longrightarrow>
   run_conversion resolve token u quality now s =
     s\<lparr>jobs := AList.update token
               (failed_job u (HTTPException 400 ''This video is already being converted'') None) (jobs s),
       current_conversions := current_conversions s - {u},
       tasks := (tasks s)(token \<mapsto> Finished),
       permits := permits s - 1 + 1\<rparr>"
  by (simp add: run_conversion_def convert_video_begin_def convert_video_except_def)

lemma run_conversion_shorts:
  "shorts_url \<notin> current_conversions s \<Longrightarrow>
   run_conversion resolve token shorts_url quality now s =
     s\<lparr>jobs := AList.update token (failed_job shorts_url (ValueError ''Invalid YouTube URL'') None) (jobs s),
       tasks := (tasks s)(token \<mapsto> Finished),
       permits := permits s - 1 + 1\<rparr>"
  by (simp add: run_conversion_def convert_video_begin_def convert_video_except_def info_shorts Let_def)

lemma finish_mp3:
  assumes "disk s ''downloads/Song-abc.mp3'' = Some f" and "100 * 1024 \<le> fsize f"
    and "map_of (jobs s) token = Some j" and "start_time j = Some t0"
  shows "attempt_succeeded token u info ''downloads/Song-abc'' now1 now2 s =
     s\<lparr>jobs := AList.update token
               (completed_job u ''downloads/Song-abc.mp3'' info (fsize f) (now1 - t0) now2) (jobs s),
       current_conversions := current_conversions s - {u},
       tasks := (tasks s)(token \<mapsto> Finished),
       permits := permits s + 1\<rparr>"
  using assms
  by (simp add: attempt_succeeded_def convert_video_finish_def convert_video_output_def
        locate_output_def Let_def suffix_def)

lemma race_1_eq:
  "race_1 = init\<lparr>jobs := [(''T1'', queued_job song_url)], tasks := [''T1'' \<mapsto> Pending song_url ''high'']\<rparr>"
  by (simp add: race_1_def start_conversion_stores init_def)

lemma race_2_eq:
  "race_2 = init\<lparr>jobs := [(''T1'', queued_job song_url), (''T2'', queued_job song_url)],
                 tasks := [''T1'' \<mapsto> Pending song_url ''high'', ''T2'' \<mapsto> Pending song_url ''high'']\<rparr>"
  by (simp add: race_2_def race_1_eq start_conversion_stores init_def)

lemma race_3_eq:
  "race_3 = init\<lparr>jobs := [(''T1'', processing_job song_url ''Song-abc'' song 1000), (''T2'', queued_job song_url)],
                 current_conversions := {song_url},
                 tasks := [''T1'' \<mapsto> Pending song_url ''high'', ''T2'' \<mapsto> Pending song_url ''high'',
                           ''T1'' \<mapsto> Downloading song_url song ''downloads/Song-abc''
                                     (get_ydl_opts ''downloads/Song-abc'' ''high'') 0],
                 permits := 9\<rparr>"
  by (simp add: race_3_def race_2_eq run_conversion_song init_def MAX_CONCURRENT_CONVERSIONS_def)

lemma race_4_eq:
  "race_4 = init\<lparr>jobs := [(''T1'', processing_job song_url ''Song-abc'' song 1000),
                          (''T2'', failed_job song_url
                             (HTTPException 400 ''This video is already being converted'') None)],
                 current_conversions := {},
                 tasks := [''T1'' \<mapsto> Pending song_url ''high'', ''T2'' \<mapsto> Pending song_url ''high'',
                           ''T1'' \<mapsto> Downloading song_url song ''downloads/Song-abc''
                                     (get_ydl_opts ''downloads/Song-abc'' ''high'') 0,
                           ''T2'' \<mapsto> Finished],
                 permits := 9\<rparr>"
  by (simp add: race_4_def race_3_eq run_conversion_duplicate init_def)

lemma reachable_init: "reachable init"
  by (simp add: reachable_def)

lemma reachable_step: "reachable s \<Longrightarrow> step s s' \<Longrightarrow> reachable s'"
  unfolding reachable_def by (rule rtranclp.rtrancl_into_rtrancl)

lemma step_submitI:
  "tasks s token = None \<Longrightarrow> step s (snd (start_conversion token request_url quality s))"
  by (rule step_submit [of s token request_url quality "fst (start_conversion token request_url quality s)"])
     simp_all

lemma step_race_1: "step init race_1"
  unfolding race_1_def by (rule step_submitI) (simp add: init_def)

lemma step_race_2: "step race_1 race_2"
  unfolding race_2_def by (rule step_submitI) (simp add: race_1_eq init_def)

lemma step_race_3: "step race_2 race_3"
  unfolding race_3_def
  by (rule step_enter) (simp_all add: race_2_eq init_def MAX_CONCURRENT_CONVERSIONS_def)

lemma step_race_4: "step race_3 race_4"
  unfolding race_4_def
  by (rule step_enter) (simp_all add: race_3_eq init_def)

lemma reachable_race_2: "reachable race_2"
  by (intro reachable_step [OF _ step_race_2] reachable_step [OF _ step_race_1] reachable_init)

lemma reachable_race_3: "reachable race_3"
  by (rule reachable_step [OF reachable_race_2 step_race_3])

lemma reachable_race_4: "reachable race_4"
  by (rule reachable_step [OF reachable_race_3 step_race_4])

section \<open>The status of a job only moves forward\<close>

text \<open>
  C1. Take any state \<open>s\<close> the service reaches and any state \<open>s'\<close> that steps of any kind
  (requests to convert, workers entering, progress reports, writes of the extractor,
  failed and successful runs, downloads, passes of the cleanup loop) lead to from \<open>s\<close>.
  If a token has a record in both, the stage of its status in \<open>s'\<close> is not earlier than
  in \<open>s\<close>, in the order Queued, Processing, then Completed or Failed; and a status of
  the last stage is still the same status. This also holds when the record was removed
  and stored again in between. A job may go from Queued straight to Failed; it never
  goes back.
\<close>

theorem status_only_moves_forward:
  assumes "reachable s" and "step\<^sup>*\<^sup>* s s'"
    and "map_of (jobs s) token = Some j" and "map_of (jobs s') token = Some j'"
  shows "rank (status j) \<le> rank (status j') \<and> (rank (status j) = 2 \<longrightarrow> status j' = status j)"
proof -
  from invariantD [OF reachable_invariant [OF assms(1)] assms(3)]
  obtain a where a: "tasks s token = Some a" "stage a = rank (status j)" by blast
  from assms(2)
  have "invariant s' \<and> (\<exists>b. tasks s' token = Some b \<and> stage a \<le> stage b) \<and>
        (stage a = 2 \<longrightarrow> (\<forall>k. map_of (jobs s') token = Some k \<longrightarrow> status k = status j))"
  proof (induction rule: rtranclp_induct)
    case base
    with a assms(1,3) show ?case by (simp add: reachable_invariant)
  next
    case (step y z)
    then obtain b where b: "tasks y token = Some b" "stage a \<le> stage b" by blast
    from step have iy: "invariant y" by simp
    from step_stage [OF step(2) iy b(1)] b(2)
    have 1: "\<exists>c. tasks z token = Some c \<and> stage a \<le> stage c" by auto
    have 2: "stage a = 2 \<longrightarrow> (\<forall>k. map_of (jobs z) token = Some k \<longrightarrow> status k = status j)"
    proof (intro impI allI)
      fix k assume t: "stage a = 2" and k: "map_of (jobs z) token = Some k"
      from b t have "b = Finished" by (cases b) auto
      with step_terminal [OF step(2) iy _ k] b(1)
      obtain k0 where "map_of (jobs y) token = Some k0" "status k = status k0" by blast
      with step(3) t show "status k = status j" by simp
    qed
    from step_invariant [OF step(2) iy] 1 2 show ?case by blast
  qed
  then obtain b where inv': "invariant s'" and b: "tasks s' token = Some b" "stage a \<le> stage b"
    and stable: "stage a = 2 \<longrightarrow> status j' = status j"
    using assms(4) by blast
  from invariantD [OF inv' assms(4)] b(1) have "stage b = rank (status j')" by auto
  with a b stable show ?thesis by simp
qed

theorem status_only_moves_forward_witness:
  "reachable race_2 \<and> step\<^sup>*\<^sup>* race_2 race_4 \<and>
   map_of (jobs race_2) ''T2'' = Some (queued_job song_url) \<and>
   map_of (jobs race_4) ''T2'' =
     Some (failed_job song_url (HTTPException 400 ''This video is already being converted'') None) \<and>
   rank (status (queued_job song_url)) \<le>
     rank (status (failed_job song_url (HTTPException 400 ''This video is already being converted'') None))"
proof -
  have steps: "step\<^sup>*\<^sup>* race_2 race_4"
    using step_race_3 step_race_4 by (meson rtranclp.simps)
  have before: "map_of (jobs race_2) ''T2'' = Some (queued_job song_url)"
    by (simp add: race_2_eq)
  have after: "map_of (jobs race_4) ''T2'' =
      Some (failed_job song_url (HTTPException 400 ''This video is already being converted'') None)"
    by (simp add: race_4_eq)
  from status_only_moves_forward [OF reachable_race_2 steps before after]
    reachable_race_2 steps before after
  show ?thesis by simp
qed

lemma life_1_eq:
  "life_1 = init\<lparr>jobs := [(''A'', queued_job song_url)], tasks := [''A'' \<mapsto> Pending song_url ''high'']\<rparr>"
  by (simp add: life_1_def start_conversion_stores init_def)

lemma life_2_eq:
  "life_2 = init\<lparr>jobs := [(''A'', processing_job song_url ''Song-abc'' song 990)],
       current_conversions := {song_url},
       tasks := [''A'' \<mapsto> Pending song_url ''high'',
                 ''A'' \<mapsto> Downloading song_url song ''downloads/Song-abc''
                           (get_ydl_opts ''downloads/Song-abc'' ''high'') 0],
       permits := 9\<rparr>"
  by (simp add: life_2_def life_1_eq run_conversion_song init_def MAX_CONCURRENT_CONVERSIONS_def)

lemma life_4_eq:
  "life_4 = init\<lparr>jobs := [(''A'', completed_job song_url ''downloads/Song-abc.mp3'' song 200000 10 1000)],
       disk := [''downloads/Song-abc.mp3'' \<mapsto> song_file],
       tasks := [''A'' \<mapsto> Finished]\<rparr>"
  unfolding life_4_def life_3_def
  by (subst finish_mp3 [where f = song_file and j = "processing_job song_url ''Song-abc'' song 990" and ?t0.0 = 990])
     (simp_all add: life_2_eq song_file_def processing_job_def init_def MAX_CONCURRENT_CONVERSIONS_def)

lemma life_5_eq:
  "life_5 = init\<lparr>jobs := [(''A'', completed_job song_url ''downloads/Song-abc.mp3'' song 200000 10 1000),
                          (''B'', queued_job song_url)],
       disk := [''downloads/Song-abc.mp3'' \<mapsto> song_file],
       tasks := [''A'' \<mapsto> Finished, ''B'' \<mapsto> Pending song_url ''low'']\<rparr>"
  by (simp add: life_5_def life_4_eq start_conversion_stores init_def)

lemma life_6_eq:
  "life_6 = init\<lparr>jobs := [(''A'', completed_job song_url ''downloads/Song-abc.mp3'' song 200000 10 1000),
                          (''B'', processing_job song_url ''Song-abc'' song 1095)],
       current_conversions := {song_url},
       disk := [''downloads/Song-abc.mp3'' \<mapsto> song_file],
       tasks := [''A'' \<mapsto> Finished, ''B'' \<mapsto> Pending song_url ''low'',
                 ''B'' \<mapsto> Downloading song_url song ''downloads/Song-abc''
                           (get_ydl_opts ''downloads/Song-abc'' ''low'') 0],
       permits := 9\<rparr>"
  by (simp add: life_6_def life_5_eq run_conversion_song init_def MAX_CONCURRENT_CONVERSIONS_def)

lemma life_7_eq:
  "life_7 = init\<lparr>jobs := [(''A'', completed_job song_url ''downloads/Song-abc.mp3'' song 200000 10 1000),
                          (''B'', completed_job song_url ''downloads/Song-abc.mp3'' song 200000 5 1100)],
       disk := [''downloads/Song-abc.mp3'' \<mapsto> song_file],
       tasks := [''A'' \<mapsto> Finished, ''B'' \<mapsto> Finished]\<rparr>"
  unfolding life_7_def
  by (subst finish_mp3 [where f = song_file and j = "processing_job song_url ''Song-abc'' song 1095" and ?t0.0 = 1095])
     (simp_all add: life_6_eq song_file_def processing_job_def init_def MAX_CONCURRENT_CONVERSIONS_def)

lemma life_9_eq:
  "life_9 = init\<lparr>jobs := [(''A'', completed_job song_url ''downloads/Song-abc.mp3'' song 200000 10 1000),
                          (''B'', completed_job song_url ''downloads/Song-abc.mp3'' song 200000 5 1100),
                          (''C'', failed_job shorts_url (ValueError ''Invalid YouTube URL'') None)],
       disk := [''downloads/Song-abc.mp3'' \<mapsto> song_file],
       tasks := [''A'' \<mapsto> Finished, ''B'' \<mapsto> Finished, ''C'' \<mapsto> Finished]\<rparr>"
  unfolding life_9_def life_8_def
  by (subst run_conversion_shorts)
     (simp_all add: life_7_eq start_conversion_stores init_def MAX_CONCURRENT_CONVERSIONS_def)

lemma step_life_1: "step init life_1"
  unfolding life_1_def by (rule step_submitI) (simp add: init_def)

lemma step_life_2: "step life_1 life_2"
  unfolding life_2_def
  by (rule step_enter) (simp_all add: life_1_eq init_def MAX_CONCURRENT_CONVERSIONS_def)

lemma step_life_3: "step life_2 life_3"
  unfolding life_3_def
  by (rule step_write [of _ "''A''"]) (simp add: life_2_eq init_def)

lemma step_life_4: "step life_3 life_4"
  unfolding life_4_def
  by (rule step_succeeded [of _ _ _ _ _ "get_ydl_opts ''downloads/Song-abc'' ''high''" 0])
     (simp add: life_3_def life_2_eq init_def)

lemma step_life_5: "step life_4 life_5"
  unfolding life_5_def by (rule step_submitI) (simp add: life_4_eq init_def)

lemma step_life_6: "step life_5 life_6"
  unfolding life_6_def
  by (rule step_enter) (simp_all add: life_5_eq init_def MAX_CONCURRENT_CONVERSIONS_def)

lemma step_life_7: "step life_6 life_7"
  unfolding life_7_def
  by (rule step_succeeded [of _ _ _ _ _ "get_ydl_opts ''downloads/Song-abc'' ''low''" 0])
     (simp add: life_6_eq init_def)

lemma step_life_8: "step life_7 life_8"
  unfolding life_8_def by (rule step_submitI) (simp add: life_7_eq init_def)

lemma step_life_9: "step life_8 life_9"
  unfolding life_9_def
  by (rule step_enter)
     (simp_all add: life_8_def life_7_eq start_conversion_stores init_def MAX_CONCURRENT_CONVERSIONS_def)

lemma reachable_life_4: "reachable life_4"
  by (intro reachable_step [OF _ step_life_4] reachable_step [OF _ step_life_3]
        reachable_step [OF _ step_life_2] reachable_step [OF _ step_life_1] reachable_init)

lemma reachable_life_9: "reachable life_9"
  by (intro reachable_step [OF _ step_life_9] reachable_step [OF _ step_life_8]
        reachable_step [OF _ step_life_7] reachable_step [OF _ step_life_6]
        reachable_step [OF _ step_life_5] reachable_life_4)

lemma reaped_jobs:
  "jobs (cleanup_old_files 1610 life_9) =
     [(''B'', completed_job song_url ''downloads/Song-abc.mp3'' song 200000 5 1100)]"
  by (simp add: cleanup_old_files_def cleanup_entry_def life_9_eq init_def expiry_of_def
        completed_job_def failed_job_def FILE_EXPIRY_MINUTES_def os_remove_def Let_def)

lemma reaped_disk:
  "disk (cleanup_old_files 1610 life_9) ''downloads/Song-abc.mp3'' = None"
  by (simp add: cleanup_old_files_def cleanup_entry_def life_9_eq init_def expiry_of_def
        completed_job_def failed_job_def FILE_EXPIRY_MINUTES_def os_remove_def Let_def)

section \<open>What a pass of the cleanup loop removes\<close>

text \<open>
  C9. At any time \<open>now\<close> after the epoch, a pass of the cleanup loop removes every record
  that has no \<open>expires_at\<close> and whose status is not Processing: the missing field reads as
  0, which is before \<open>now\<close>. Afterwards \<open>GET /status\<close> answers 404 for its token. In every
  state the service reaches, every record of status Queued and every record of status
  Failed is such a record.
\<close>

theorem reaper_removes_records_without_expiry:
  assumes "0 < now" and "map_of (jobs s) token = Some j" and "status j \<noteq> Processing"
  shows "(expires_at j = None \<longrightarrow>
            expiry_of j < now \<and>
            map_of (jobs (cleanup_old_files now s)) token = None \<and>
            get_status token (cleanup_old_files now s) = Inl (HTTPException 404 ''Job not found'')) \<and>
         (reachable s \<and> (status j = Queued \<or> status j = Failed) \<longrightarrow> expires_at j = None)"
proof (intro conjI impI)
  assume e: "expires_at j = None"
  then show x: "expiry_of j < now" using assms(1) by (simp add: expiry_of_def)
  have "(token, j) \<in> set (jobs s)" using assms(2) by (rule map_of_SomeD)
  moreover have "removable now (token, j)" using assms(3) x by (simp add: removable_def)
  ultimately have "\<exists>e \<in> set (jobs s). removable now e \<and> fst e = token" by force
  then have "token \<notin> fst ` set (jobs (cleanup_old_files now s))"
    by (auto simp: cleanup_old_files_def fold_cleanup_jobs)
  then show n: "map_of (jobs (cleanup_old_files now s)) token = None"
    by (simp add: map_of_eq_None_iff)
  then show "get_status token (cleanup_old_files now s) = Inl (HTTPException 404 ''Job not found'')"
    by (simp add: get_status_def)
next
  assume r: "reachable s \<and> (status j = Queued \<or> status j = Failed)"
  with invariantD [OF reachable_invariant assms(2)] show "expires_at j = None"
    by (auto simp: job_ok_def)
qed

theorem reaper_removes_records_without_expiry_witness:
  "(0::real) < 1610 \<and> reachable life_9 \<and>
   map_of (jobs life_9) ''C'' = Some (failed_job shorts_url (ValueError ''Invalid YouTube URL'') None) \<and>
   status (failed_job shorts_url (ValueError ''Invalid YouTube URL'') None) = Failed \<and>
   expires_at (failed_job shorts_url (ValueError ''Invalid YouTube URL'') None) = None \<and>
   map_of (jobs (cleanup_old_files 1610 life_9)) ''C'' = None \<and>
   get_status ''C'' (cleanup_old_files 1610 life_9) = Inl (HTTPException 404 ''Job not found'')"
proof -
  have m: "map_of (jobs life_9) ''C'' = Some (failed_job shorts_url (ValueError ''Invalid YouTube URL'') None)"
    by (simp add: life_9_eq)
  have st: "status (failed_job shorts_url (ValueError ''Invalid YouTube URL'') None) \<noteq> Processing"
    by (simp add: failed_job_def)
  from reaper_removes_records_without_expiry [OF _ m st, of 1610] reachable_life_9 m
  show ?thesis by (simp add: failed_job_def)
qed

text \<open>
  C3, as the specification states it, fails in two ways in the run of the example. The
  record of token \<open>C\<close> is Failed and has no \<open>expires_at\<close> at all, and the pass at time
  1610 removes it. The records of \<open>A\<close> and \<open>B\<close> name the same file; the expiry of \<open>B\<close>
  (1700) has not passed at time 1610 and \<open>B\<close> stays in the table, yet its file is deleted,
  because the expiry of \<open>A\<close> (1600) has passed.
\<close>

theorem reaper_expiry_counterexample:
  "reachable life_9 \<and>
   map_of (jobs life_9) ''C'' = Some (failed_job shorts_url (ValueError ''Invalid YouTube URL'') None) \<and>
   expires_at (failed_job shorts_url (ValueError ''Invalid YouTube URL'') None) = None \<and>
   map_of (jobs (cleanup_old_files 1610 life_9)) ''C'' = None \<and>
   map_of (jobs life_9) ''B'' = Some (completed_job song_url ''downloads/Song-abc.mp3'' song 200000 5 1100) \<and>
   map_of (jobs (cleanup_old_files 1610 life_9)) ''B'' =
     Some (completed_job song_url ''downloads/Song-abc.mp3'' song 200000 5 1100) \<and>
   file_path (completed_job song_url ''downloads/Song-abc.mp3'' song 200000 5 1100) =
     Some ''downloads/Song-abc.mp3'' \<and>
   expires_at (completed_job song_url ''downloads/Song-abc.mp3'' song 200000 5 1100) = Some 1700 \<and>
   \<not> (1700 < (1610::real)) \<and>
   disk life_9 ''downloads/Song-abc.mp3'' = Some song_file \<and>
   disk (cleanup_old_files 1610 life_9) ''downloads/Song-abc.mp3'' = None"
  by (simp add: reachable_life_9 reaped_jobs reaped_disk)
     (simp add: life_9_eq init_def completed_job_def failed_job_def FILE_EXPIRY_MINUTES_def)

text \<open>
  C3, amended. In a pass of the cleanup loop at time \<open>now\<close>, with \<open>expiry_of\<close> reading a
  missing \<open>expires_at\<close> as 0: a file disappears from the disk only if some record names
  it as its \<open>file_path\<close> and has its expiry before \<open>now\<close>; a record is removed from the
  table only if its own expiry is before \<open>now\<close> and its status is not Processing; a
  record of status Processing is never removed.
\<close>

theorem reaper_only_removes_expired:
  assumes "distinct (map fst (jobs s))"
  shows "(\<forall>p. disk s p \<noteq> None \<and> disk (cleanup_old_files now s) p = None \<longrightarrow>
            (\<exists>t j. (t, j) \<in> set (jobs s) \<and> file_path j = Some p \<and> expiry_of j < now)) \<and>
         (\<forall>t j. map_of (jobs s) t = Some j \<and> map_of (jobs (cleanup_old_files now s)) t = None \<longrightarrow>
            expiry_of j < now \<and> status j \<noteq> Processing) \<and>
         (\<forall>t j. map_of (jobs s) t = Some j \<and> status j = Processing \<longrightarrow>
            map_of (jobs (cleanup_old_files now s)) t = Some j)"
proof (intro conjI allI impI)
  fix p assume "disk s p \<noteq> None \<and> disk (cleanup_old_files now s) p = None"
  then show "\<exists>t j. (t, j) \<in> set (jobs s) \<and> file_path j = Some p \<and> expiry_of j < now"
    by (fastforce simp: cleanup_old_files_def fold_cleanup_disk split: if_splits)
next
  fix t j assume a: "map_of (jobs s) t = Some j \<and> map_of (jobs (cleanup_old_files now s)) t = None"
  then have "removable now (t, j)"
    using cleanup_old_files_lookup [OF assms, of t j now] by (simp split: if_splits)
  then show "expiry_of j < now" "status j \<noteq> Processing" by (simp_all add: removable_def)
next
  fix t j assume a: "map_of (jobs s) t = Some j \<and> status j = Processing"
  then have "\<not> removable now (t, j)" by (simp add: removable_def)
  with a show "map_of (jobs (cleanup_old_files now s)) t = Some j"
    using cleanup_old_files_lookup [OF assms, of t j now] by simp
qed

lemma reaped_race_jobs:
  "jobs (cleanup_old_files 2000 race_4) = [(''T1'', processing_job song_url ''Song-abc'' song 1000)]"
  by (simp add: cleanup_old_files_def cleanup_entry_def race_4_eq init_def expiry_of_def
        processing_job_def failed_job_def Let_def)

theorem reaper_only_removes_expired_witness:
  "distinct (map fst (jobs race_4)) \<and>
   map_of (jobs race_4) ''T1'' = Some (processing_job song_url ''Song-abc'' song 1000) \<and>
   status (processing_job song_url ''Song-abc'' song 1000) = Processing \<and>
   map_of (jobs (cleanup_old_files 2000 race_4)) ''T1'' = Some (processing_job song_url ''Song-abc'' song 1000) \<and>
   map_of (jobs race_4) ''T2'' =
     Some (failed_job song_url (HTTPException 400 ''This video is already being converted'') None) \<and>
   map_of (jobs (cleanup_old_files 2000 race_4)) ''T2'' = None \<and>
   expiry_of (failed_job song_url (HTTPException 400 ''This video is already being converted'') None) < 2000"
proof -
  have d: "distinct (map fst (jobs race_4))"
    by (simp add: race_4_eq)
  have before: "map_of (jobs race_4) ''T1'' = Some (processing_job song_url ''Song-abc'' song 1000)"
    by (simp add: race_4_eq)
  have st: "status (processing_job song_url ''Song-abc'' song 1000) = Processing"
    by (simp add: processing_job_def)
  have before2: "map_of (jobs race_4) ''T2'' =
      Some (failed_job song_url (HTTPException 400 ''This video is already being converted'') None)"
    by (simp add: race_4_eq)
  have gone: "map_of (jobs (cleanup_old_files 2000 race_4)) ''T2'' = None"
    by (simp add: reaped_race_jobs)
  note only = reaper_only_removes_expired [OF d, of 2000]
  have kept: "map_of (jobs (cleanup_old_files 2000 race_4)) ''T1'' =
      Some (processing_job song_url ''Song-abc'' song 1000)"
    using only before st by blast
  have expired: "expiry_of (failed_job song_url (HTTPException 400 ''This video is already being converted'') None) < 2000"
    using only before2 gone by blast
  from d before st kept before2 gone expired show ?thesis by blast
qed

section \<open>Downloads\<close>

lemma rsplit_dot_head_ext:
  "rsplit_dot_head (x @ ''.m4a'') = x"
  "rsplit_dot_head (x @ ''.webm'') = x"
  "rsplit_dot_head (x @ ''.part'') = x"
  by (simp_all add: rsplit_dot_head_def)

lemma not_mp3_ext:
  "\<not> suffix ''.mp3'' (x @ ''.m4a'')"
  "\<not> suffix ''.mp3'' (x @ ''.webm'')"
  "\<not> suffix ''.mp3'' (x @ ''.part'')"
  by (simp_all add: suffix_to_prefix)

lemma mp3_name_ext:
  "mp3_name (x @ ''.mp3'') = x @ ''.mp3''"
  "mp3_name (x @ ''.m4a'') = x @ ''.mp3''"
  "mp3_name (x @ ''.webm'') = x @ ''.mp3''"
  "mp3_name (x @ ''.part'') = x @ ''.mp3''"
  by (simp_all add: mp3_name_def rsplit_dot_head_ext not_mp3_ext suffix_def)










lemma download_life_4:
  "download_file ''A'' 1200 life_4 =
     (Inr \<lparr>path = ''downloads/Song-abc.mp3'', media_type = ''audio/mpeg'',
           response_filename = ''Song-abc.mp3'',
           content_disposition = ''attachment; filename='' @ [CHR 0x22] @ ''Song-abc.mp3'' @ [CHR 0x22]\<rparr>,
      life_4\<lparr>jobs := [(''A'', (completed_job song_url ''downloads/Song-abc.mp3'' song 200000 10 1000)
                               \<lparr>expires_at := Some 1800\<rparr>)]\<rparr>)"
  by (simp add: download_file_def life_4_eq init_def completed_job_def basename_def song_file_def
        FILE_EXPIRY_MINUTES_def Let_def)


section \<open>The output file\<close>

lemma locate_output_exists: "locate_output d output_path = Inr found \<Longrightarrow> d found \<noteq> None"
  by (auto simp: locate_output_def find_Some_iff split: option.splits if_splits)

lemma renamed_differs: "b @ ''.mp3'' = a \<Longrightarrow> suffix ''.mp3'' a"
  by (auto simp: suffix_def)

lemma undersized_output:
  assumes "locate_output (disk s) output_path = Inr found" and "disk s found = Some f"
    and "fsize f < 100 * 1024"
  shows "disk (convert_video_finish token u info output_path now1 now2 s) found = None \<and>
      (\<forall>p. disk (convert_video_finish token u info output_path now1 now2 s) p \<noteq> None \<longrightarrow>
           disk (convert_video_finish token u info output_path now1 now2 s) p = disk s p) \<and>
      map_of (jobs (convert_video_finish token u info output_path now1 now2 s)) token =
        Some (failed_job u (FileTooSmall (fsize f)) (Some info))"
  using assms
  by (auto simp: convert_video_finish_def convert_video_output_def Let_def os_rename_def os_remove_def
        convert_video_except_def update_conv' dest: renamed_differs)

lemma completed_output:
  assumes "map_of (jobs (convert_video_finish token u info output_path now1 now2 s)) token = Some j"
    and "status j = Completed"
  shows "\<exists>p f. file_path j = Some p \<and> suffix ''.mp3'' p \<and>
           disk (convert_video_finish token u info output_path now1 now2 s) p = Some f \<and>
           100 * 1024 \<le> fsize f \<and> file_size j = Some (fsize f)"
proof (cases "convert_video_output token u info output_path now1 now2 s")
  case (Pair r s1)
  show ?thesis
  proof (cases r)
    case (Some e)
    with Pair assms show ?thesis
      by (auto simp: convert_video_finish_def convert_video_except_def update_conv' failed_job_def)
  next
    case None
    with Pair assms show ?thesis
      by (auto simp: convert_video_finish_def convert_video_output_def Let_def update_conv'
            completed_job_def suffix_def split: sum.splits option.splits if_splits)
  qed
qed

lemma reachable_small_output: "reachable small_output"
  unfolding small_output_def
  by (rule reachable_step [OF reachable_race_3], rule step_write [of _ "''T1''"])
     (simp add: race_3_eq init_def)

lemma small_output_located:
  "locate_output (disk small_output) ''downloads/Song-abc'' = Inr ''downloads/Song-abc.m4a''"
  by (simp add: small_output_def locate_output_def)

text \<open>
  C5. When the output file that the worker locates is smaller than 100 KiB (102400
  bytes), the worker deletes it (after the run nothing is on the disk under the name
  found, and no file is on the disk that was not there unchanged before) and the job's
  record is the failed one, of status Failed, carrying the size. And in every state the
  service reaches, every record of status Completed has a \<open>file_size\<close> of at least
  100 KiB.
\<close>

theorem undersized_output_is_rejected:
  "(\<forall>found f.
      locate_output (disk s) output_path = Inr found \<and> disk s found = Some f \<and> fsize f < 100 * 1024 \<longrightarrow>
      disk (convert_video_finish token u info output_path now1 now2 s) found = None \<and>
      (\<forall>p. disk (convert_video_finish token u info output_path now1 now2 s) p \<noteq> None \<longrightarrow>
           disk (convert_video_finish token u info output_path now1 now2 s) p = disk s p) \<and>
      map_of (jobs (convert_video_finish token u info output_path now1 now2 s)) token =
        Some (failed_job u (FileTooSmall (fsize f)) (Some info)) \<and>
      status (failed_job u (FileTooSmall (fsize f)) (Some info)) = Failed) \<and>
   (\<forall>t j. reachable s0 \<and> map_of (jobs s0) t = Some j \<and> status j = Completed \<longrightarrow>
      (\<exists>n. file_size j = Some n \<and> 100 * 1024 \<le> n))"
proof (intro conjI allI impI)
  fix found f
  assume a: "locate_output (disk s) output_path = Inr found \<and> disk s found = Some f \<and> fsize f < 100 * 1024"
  then have u: "disk (convert_video_finish token u info output_path now1 now2 s) found = None \<and>
      (\<forall>p. disk (convert_video_finish token u info output_path now1 now2 s) p \<noteq> None \<longrightarrow>
           disk (convert_video_finish token u info output_path now1 now2 s) p = disk s p) \<and>
      map_of (jobs (convert_video_finish token u info output_path now1 now2 s)) token =
        Some (failed_job u (FileTooSmall (fsize f)) (Some info))"
    by (intro undersized_output) simp_all
  from u show "disk (convert_video_finish token u info output_path now1 now2 s) found = None"
    by blast
  from u show "map_of (jobs (convert_video_finish token u info output_path now1 now2 s)) token =
        Some (failed_job u (FileTooSmall (fsize f)) (Some info))"
    by blast
  show "status (failed_job u (FileTooSmall (fsize f)) (Some info)) = Failed"
    by (simp add: failed_job_def)
  fix p assume "disk (convert_video_finish token u info output_path now1 now2 s) p \<noteq> None"
  with u show "disk (convert_video_finish token u info output_path now1 now2 s) p = disk s p"
    by blast
next
  fix t j assume "reachable s0 \<and> map_of (jobs s0) t = Some j \<and> status j = Completed"
  with invariantD [OF reachable_invariant, of s0 t j]
  show "\<exists>n. file_size j = Some n \<and> 100 * 1024 \<le> n"
    by (simp add: job_ok_def)
qed

theorem undersized_output_is_rejected_witness:
  "reachable small_output \<and>
   locate_output (disk small_output) ''downloads/Song-abc'' = Inr ''downloads/Song-abc.m4a'' \<and>
   disk small_output ''downloads/Song-abc.m4a'' = Some \<lparr>fsize = 5000, fkind = SourceMedia\<rparr> \<and>
   (5000::nat) < 100 * 1024 \<and>
   disk (convert_video_finish ''T1'' song_url song ''downloads/Song-abc'' 1010 1010 small_output)
     ''downloads/Song-abc.m4a'' = None \<and>
   map_of (jobs (convert_video_finish ''T1'' song_url song ''downloads/Song-abc'' 1010 1010 small_output))
     ''T1'' = Some (failed_job song_url (FileTooSmall 5000) (Some song)) \<and>
   reachable life_4 \<and>
   map_of (jobs life_4) ''A'' = Some (completed_job song_url ''downloads/Song-abc.mp3'' song 200000 10 1000) \<and>
   status (completed_job song_url ''downloads/Song-abc.mp3'' song 200000 10 1000) = Completed \<and>
   (\<exists>n. file_size (completed_job song_url ''downloads/Song-abc.mp3'' song 200000 10 1000) = Some n \<and>
        100 * 1024 \<le> n)"
proof -
  have d: "disk small_output ''downloads/Song-abc.m4a'' = Some \<lparr>fsize = 5000, fkind = SourceMedia\<rparr>"
    by (simp add: small_output_def)
  have m: "map_of (jobs life_4) ''A'' = Some (completed_job song_url ''downloads/Song-abc.mp3'' song 200000 10 1000)"
    by (simp add: life_4_eq)
  have c: "status (completed_job song_url ''downloads/Song-abc.mp3'' song 200000 10 1000) = Completed"
    by (simp add: completed_job_def)
  note rejected = undersized_output_is_rejected [of small_output "''downloads/Song-abc''" "''T1''"
      song_url song 1010 1010 life_4]
  from rejected small_output_located d
  have 1: "disk (convert_video_finish ''T1'' song_url song ''downloads/Song-abc'' 1010 1010 small_output)
     ''downloads/Song-abc.m4a'' = None \<and>
   map_of (jobs (convert_video_finish ''T1'' song_url song ''downloads/Song-abc'' 1010 1010 small_output))
     ''T1'' = Some (failed_job song_url (FileTooSmall 5000) (Some song))"
    by force
  from rejected reachable_life_4 m c
  have 2: "\<exists>n. file_size (completed_job song_url ''downloads/Song-abc.mp3'' song 200000 10 1000) = Some n \<and>
        100 * 1024 \<le> n"
    by blast
  from reachable_small_output small_output_located d 1 reachable_life_4 m c 2 show ?thesis by simp
qed

section \<open>The retry loop\<close>

lemma download_attempts_unfold:
  "download_attempts extract [0..<max_attempts] opts d [] =
     (case extract 0 opts d of
        (None, d1) \<Rightarrow> (None, d1, [Extract opts])
      | (Some e0, d1) \<Rightarrow>
          (case extract 1 (next_attempt_opts 0 opts) d1 of
             (None, d2) \<Rightarrow> (None, d2, [Extract opts, Sleep 2, Extract (next_attempt_opts 0 opts)])
           | (Some e1, d2) \<Rightarrow>
               (case extract 2 (next_attempt_opts 1 (next_attempt_opts 0 opts)) d2 of
                  (r, d3) \<Rightarrow>
                    (r, d3, [Extract opts, Sleep 2, Extract (next_attempt_opts 0 opts), Sleep 2,
                             Extract (next_attempt_opts 1 (next_attempt_opts 0 opts))]))))"
proof -
  have r: "[0..<max_attempts] = [0, 1, 2]"
    by (simp add: max_attempts_def upt_rec)
  show ?thesis
    unfolding r
    by (simp add: max_attempts_def split: prod.splits option.splits)
qed

lemma download_attempts_trace:
  "download_attempts extract [0..<max_attempts] opts d [] = (r, d', trace) \<Longrightarrow>
     trace \<in> {take 1 (schedule opts), take 3 (schedule opts), schedule opts}"
  unfolding download_attempts_unfold
  by (auto simp: schedule_def split: prod.splits option.splits)

lemma begin_opts:
  "convert_video_begin resolve token u quality now s = (Some (info, output_path, opts), s1) \<Longrightarrow>
     opts = get_ydl_opts output_path quality"
  by (auto simp: convert_video_begin_def Let_def split: if_splits sum.splits)

lemma begin_song:
  "song_url \<notin> current_conversions s \<Longrightarrow>
   convert_video_begin resolve_song token song_url quality now s =
     (Some (song, ''downloads/Song-abc'', get_ydl_opts ''downloads/Song-abc'' quality),
      s\<lparr>jobs := AList.update token (processing_job song_url ''Song-abc'' song now) (jobs s),
        current_conversions := insert song_url (current_conversions s)\<rparr>)"
  by (simp add: convert_video_begin_def info_song sanitize_song Let_def) (simp add: song_def)

text \<open>
  C6, as the specification states it, fails on the word ``relaxes''. After the first
  failed run the format is set to the value it already has and the player clients shrink
  from android and web to web alone; after the second the format loses its fallback
  \<open>best\<close> and the only client is android. Neither change keeps all that the run before
  accepted.
\<close>

theorem retry_does_not_relax_counterexample:
  "format (next_attempt_opts 0 (get_ydl_opts ''downloads/Song-abc'' ''high'')) =
     format (get_ydl_opts ''downloads/Song-abc'' ''high'') \<and>
   \<not> relaxed_selection (get_ydl_opts ''downloads/Song-abc'' ''high'')
        (next_attempt_opts 0 (get_ydl_opts ''downloads/Song-abc'' ''high'')) \<and>
   \<not> relaxed_selection (next_attempt_opts 0 (get_ydl_opts ''downloads/Song-abc'' ''high''))
        (next_attempt_opts 1 (next_attempt_opts 0 (get_ydl_opts ''downloads/Song-abc'' ''high'')))"
  by (simp add: relaxed_selection_def format_alternatives_def get_ydl_opts_def next_attempt_opts_def
        py_split_def)

text \<open>
  C6, amended. In one run of the worker the extractor is called at most three times.
  The trace of the retry loop is empty (the worker failed before the loop) or a
  beginning of the schedule: a run, a sleep of two seconds, a run, a sleep of two
  seconds, a run. The first run has the format \<open>bestaudio/best\<close> and the player clients
  android and web; the second the same format and the client web; the third the format
  \<open>bestaudio\<close> and the client android. When all three runs raise, the trace is the
  whole schedule and the job's record is the failed one carrying the exception of the
  third run.
\<close>

theorem retry_schedule:
  "(\<exists>opts. snd (convert_video resolve extract token u quality now0 now1 now2 s)
        \<in> {[], take 1 (schedule opts), take 3 (schedule opts), schedule opts} \<and>
      format opts = ''bestaudio/best'' \<and> player_client opts = [''android'', ''web''] \<and>
      format (next_attempt_opts 0 opts) = ''bestaudio/best'' \<and>
      player_client (next_attempt_opts 0 opts) = [''web''] \<and>
      format (next_attempt_opts 1 (next_attempt_opts 0 opts)) = ''bestaudio'' \<and>
      player_client (next_attempt_opts 1 (next_attempt_opts 0 opts)) = [''android'']) \<and>
   length (filter is_Extract (snd (convert_video resolve extract token u quality now0 now1 now2 s))) \<le> 3 \<and>
   (\<forall>info output_path opts s1 e0 d1 e1 d2 e2 d3.
      convert_video_begin resolve token u quality now0 s = (Some (info, output_path, opts), s1) \<and>
      extract 0 opts (disk s1) = (Some e0, d1) \<and>
      extract 1 (next_attempt_opts 0 opts) d1 = (Some e1, d2) \<and>
      extract 2 (next_attempt_opts 1 (next_attempt_opts 0 opts)) d2 = (Some e2, d3) \<longrightarrow>
      snd (convert_video resolve extract token u quality now0 now1 now2 s) = schedule opts \<and>
      map_of (jobs (fst (convert_video resolve extract token u quality now0 now1 now2 s))) token =
        Some (failed_job u e2 (Some info)) \<and>
      status (failed_job u e2 (Some info)) = Failed \<and> error (failed_job u e2 (Some info)) = Some e2)"
proof (intro conjI allI impI)
  let ?run = "convert_video resolve extract token u quality now0 now1 now2 s"
  show "\<exists>opts. snd ?run \<in> {[], take 1 (schedule opts), take 3 (schedule opts), schedule opts} \<and>
      format opts = ''bestaudio/best'' \<and> player_client opts = [''android'', ''web''] \<and>
      format (next_attempt_opts 0 opts) = ''bestaudio/best'' \<and>
      player_client (next_attempt_opts 0 opts) = [''web''] \<and>
      format (next_attempt_opts 1 (next_attempt_opts 0 opts)) = ''bestaudio'' \<and>
      player_client (next_attempt_opts 1 (next_attempt_opts 0 opts)) = [''android'']"
  proof (cases "convert_video_begin resolve token u quality now0 s")
    case (Pair r s1)
    show ?thesis
    proof (cases r)
      case None
      with Pair have "snd ?run = []" by (simp add: convert_video_def)
      then show ?thesis
        by (intro exI [of _ "get_ydl_opts [] []"]) (simp add: get_ydl_opts_def next_attempt_opts_def)
    next
      case (Some loc)
      obtain info output_path opts where loc: "loc = (info, output_path, opts)" by (cases loc)
      have o: "opts = get_ydl_opts output_path quality"
        using Pair Some loc by (intro begin_opts [of resolve token u quality now0 s info _ _ s1]) simp
      obtain r' d' trace where da: "download_attempts extract [0..<max_attempts] opts (disk s1) [] = (r', d', trace)"
        by (cases "download_attempts extract [0..<max_attempts] opts (disk s1) []")
      have "snd ?run = trace"
        using Pair Some loc da by (simp add: convert_video_def split: option.splits)
      with download_attempts_trace [OF da] show ?thesis
        by (intro exI [of _ opts]) (auto simp: o get_ydl_opts_def next_attempt_opts_def)
    qed
  qed
  then obtain opts where "snd ?run \<in> {[], take 1 (schedule opts), take 3 (schedule opts), schedule opts}"
    by blast
  then show "length (filter is_Extract (snd ?run)) \<le> 3"
    by (auto simp: schedule_def)
next
  fix info output_path opts s1 e0 d1 e1 d2 e2 d3
  assume a: "convert_video_begin resolve token u quality now0 s = (Some (info, output_path, opts), s1) \<and>
      extract 0 opts (disk s1) = (Some e0, d1) \<and>
      extract 1 (next_attempt_opts 0 opts) d1 = (Some e1, d2) \<and>
      extract 2 (next_attempt_opts 1 (next_attempt_opts 0 opts)) d2 = (Some e2, d3)"
  then have run: "convert_video resolve extract token u quality now0 now1 now2 s =
      (convert_video_except token u e2 (Some info) (s1\<lparr>disk := d3\<rparr>), schedule opts)"
    by (simp add: convert_video_def download_attempts_unfold schedule_def)
  show "snd (convert_video resolve extract token u quality now0 now1 now2 s) = schedule opts"
    by (simp add: run)
  show "map_of (jobs (fst (convert_video resolve extract token u quality now0 now1 now2 s))) token =
        Some (failed_job u e2 (Some info))"
    by (simp add: run convert_video_except_def update_conv')
  show "status (failed_job u e2 (Some info)) = Failed" by (simp add: failed_job_def)
  show "error (failed_job u e2 (Some info)) = Some e2" by (simp add: failed_job_def)
qed

theorem retry_schedule_witness:
  "convert_video_begin resolve_song ''T1'' song_url ''high'' 1000 race_1 =
     (Some (song, ''downloads/Song-abc'', get_ydl_opts ''downloads/Song-abc'' ''high''),
      race_1\<lparr>jobs := AList.update ''T1'' (processing_job song_url ''Song-abc'' song 1000) (jobs race_1),
             current_conversions := insert song_url (current_conversions race_1)\<rparr>) \<and>
   fst (failing_extractor 0 (get_ydl_opts ''downloads/Song-abc'' ''high'') Map.empty) =
     Some (ExtractorError ''earlier run'') \<and>
   snd (convert_video resolve_song failing_extractor ''T1'' song_url ''high'' 1000 1010 1010 race_1) =
     schedule (get_ydl_opts ''downloads/Song-abc'' ''high'') \<and>
   map_of (jobs failed_run) ''T1'' = Some (failed_job song_url (ExtractorError ''third run'') (Some song))"
proof -
  let ?o = "get_ydl_opts ''downloads/Song-abc'' ''high''"
  let ?s1 = "race_1\<lparr>jobs := AList.update ''T1'' (processing_job song_url ''Song-abc'' song 1000) (jobs race_1),
             current_conversions := insert song_url (current_conversions race_1)\<rparr>"
  let ?d = "[''downloads/Song-abc.part'' \<mapsto> partial_data]"
  have b: "convert_video_begin resolve_song ''T1'' song_url ''high'' 1000 race_1 =
      (Some (song, ''downloads/Song-abc'', ?o), ?s1)"
    by (rule begin_song) (simp add: race_1_eq init_def)
  have o: "outtmpl ?o = ''downloads/Song-abc''" "\<And>k opts. outtmpl (next_attempt_opts k opts) = outtmpl opts"
    by (simp_all add: get_ydl_opts_def next_attempt_opts_def)
  have e0: "failing_extractor 0 ?o (disk ?s1) = (Some (ExtractorError ''earlier run''), ?d)"
    by (simp add: failing_extractor_def o race_1_eq init_def partial_data_def)
  have e1: "failing_extractor 1 (next_attempt_opts 0 ?o) ?d = (Some (ExtractorError ''earlier run''), ?d)"
    by (simp add: failing_extractor_def o partial_data_def)
  have e2: "failing_extractor 2 (next_attempt_opts 1 (next_attempt_opts 0 ?o)) ?d =
      (Some (ExtractorError ''third run''), ?d)"
    by (simp add: failing_extractor_def o partial_data_def)
  from retry_schedule [of resolve_song failing_extractor "''T1''" song_url "''high''" 1000 1010 1010 race_1]
    b e0 e1 e2
  have "snd (convert_video resolve_song failing_extractor ''T1'' song_url ''high'' 1000 1010 1010 race_1) =
      schedule ?o \<and>
    map_of (jobs (fst (convert_video resolve_song failing_extractor ''T1'' song_url ''high'' 1000 1010 1010 race_1)))
      ''T1'' = Some (failed_job song_url (ExtractorError ''third run'') (Some song))"
    by blast
  moreover have "fst (failing_extractor 0 ?o Map.empty) = Some (ExtractorError ''earlier run'')"
    by (simp add: failing_extractor_def)
  ultimately show ?thesis
    using b by (simp add: failed_run_def)
qed

section \<open>A run of the worker alone\<close>

lemma except_frame:
  "convert_video_except token u e info (s\<lparr>tasks := T\<rparr>) = (convert_video_except token u e info s)\<lparr>tasks := T\<rparr>"
  "convert_video_except token u e info (s\<lparr>permits := p\<rparr>) = (convert_video_except token u e info s)\<lparr>permits := p\<rparr>"
  by (simp_all add: convert_video_except_def)

lemma output_frame:
  "convert_video_output token u info output_path now1 now2 (s\<lparr>tasks := T\<rparr>) =
     (case convert_video_output token u info output_path now1 now2 s of (r, s1) \<Rightarrow> (r, s1\<lparr>tasks := T\<rparr>))"
  "convert_video_output token u info output_path now1 now2 (s\<lparr>permits := p\<rparr>) =
     (case convert_video_output token u info output_path now1 now2 s of (r, s1) \<Rightarrow> (r, s1\<lparr>permits := p\<rparr>))"
  by (simp_all add: convert_video_output_def Let_def split: sum.splits option.splits)

lemma finish_frame:
  "convert_video_finish token u info output_path now1 now2 (s\<lparr>tasks := T\<rparr>) =
     (convert_video_finish token u info output_path now1 now2 s)\<lparr>tasks := T\<rparr>"
  "convert_video_finish token u info output_path now1 now2 (s\<lparr>permits := p\<rparr>) =
     (convert_video_finish token u info output_path now1 now2 s)\<lparr>permits := p\<rparr>"
  by (simp_all add: convert_video_finish_def output_frame except_frame split: prod.splits option.splits)

lemma begin_frame:
  "convert_video_begin resolve token u quality now (s\<lparr>permits := p\<rparr>) =
     (case convert_video_begin resolve token u quality now s of (r, s1) \<Rightarrow> (r, s1\<lparr>permits := p\<rparr>))"
  by (simp add: convert_video_begin_def Let_def convert_video_except_def split: sum.splits)

lemma begin_keeps:
  "convert_video_begin resolve token u quality now s = (r, s1) \<Longrightarrow>
     tasks s1 = tasks s \<and> permits s1 = permits s \<and> disk s1 = disk s"
  by (auto simp: convert_video_begin_def convert_video_except_def Let_def split: if_splits sum.splits)

lemma finish_keeps:
  "tasks (convert_video_finish token u info output_path now1 now2 s) = tasks s"
  "permits (convert_video_finish token u info output_path now1 now2 s) = permits s"
  by (auto simp: convert_video_finish_def convert_video_output_def convert_video_except_def Let_def
        split: option.splits sum.splits)


lemma finish_frame3:
  "convert_video_finish token u info output_path now1 now2 (s\<lparr>tasks := T, permits := p, disk := d\<rparr>) =
     (convert_video_finish token u info output_path now1 now2 (s\<lparr>disk := d\<rparr>))\<lparr>tasks := T, permits := p\<rparr>"
proof -
  have "s\<lparr>tasks := T, permits := p, disk := d\<rparr> = s\<lparr>disk := d\<rparr>\<lparr>tasks := T\<rparr>\<lparr>permits := p\<rparr>"
    by simp
  then show ?thesis by (simp only: finish_frame)
qed

lemma steps2: "step a b \<Longrightarrow> step b c \<Longrightarrow> step\<^sup>*\<^sup>* a c"
  by (rule converse_rtranclp_into_rtranclp [where r = step and b = b]) (auto)

lemma steps3: "step a b \<Longrightarrow> step b c \<Longrightarrow> step c d \<Longrightarrow> step\<^sup>*\<^sup>* a d"
  by (rule converse_rtranclp_into_rtranclp [where r = step and b = b]) (auto intro: steps2)

lemma run_succeeds:
  assumes "tasks s token = Some (Downloading u info output_path opts k)"
  shows "step\<^sup>*\<^sup>* s ((convert_video_finish token u info output_path now1 now2 (s\<lparr>disk := d\<rparr>))
            \<lparr>tasks := (tasks s)(token \<mapsto> Finished), permits := permits s + 1\<rparr>)"
proof -
  have 1: "step s (s\<lparr>disk := d\<rparr>)"
    using assms by (rule step_write)
  have "step (s\<lparr>disk := d\<rparr>) (attempt_succeeded token u info output_path now1 now2 (s\<lparr>disk := d\<rparr>))"
    by (rule step_succeeded [of _ _ _ _ _ opts k]) (simp add: assms)
  then have 2: "step (s\<lparr>disk := d\<rparr>) ((convert_video_finish token u info output_path now1 now2 (s\<lparr>disk := d\<rparr>))
            \<lparr>tasks := (tasks s)(token \<mapsto> Finished), permits := permits s + 1\<rparr>)"
    by (simp add: attempt_succeeded_def)
  show ?thesis
    by (rule steps2 [OF 1 2])
qed

lemma run_fails_last:
  assumes "tasks s token = Some (Downloading u info output_path opts (max_attempts - 1))"
  shows "step\<^sup>*\<^sup>* s ((convert_video_except token u e (Some info) (s\<lparr>disk := d\<rparr>))
            \<lparr>tasks := (tasks s)(token \<mapsto> Finished), permits := permits s + 1\<rparr>)"
proof -
  have 1: "step s (s\<lparr>disk := d\<rparr>)"
    using assms by (rule step_write)
  have "step (s\<lparr>disk := d\<rparr>) (attempt_failed token u info output_path opts (max_attempts - 1) e (s\<lparr>disk := d\<rparr>))"
    by (rule step_failed) (simp add: assms)
  then have 2: "step (s\<lparr>disk := d\<rparr>) ((convert_video_except token u e (Some info) (s\<lparr>disk := d\<rparr>))
            \<lparr>tasks := (tasks s)(token \<mapsto> Finished), permits := permits s + 1\<rparr>)"
    by (simp add: attempt_failed_def)
  show ?thesis
    by (rule steps2 [OF 1 2])
qed

lemma run_fails_early:
  assumes "tasks s token = Some (Downloading u info output_path opts k)" and "k \<noteq> max_attempts - 1"
  shows "step\<^sup>*\<^sup>* s (s\<lparr>disk := d, tasks := (tasks s)(token \<mapsto>
            Downloading u info output_path (next_attempt_opts k opts) (k + 1))\<rparr>)"
proof -
  let ?a = "s\<lparr>disk := d\<rparr>"
  let ?b = "?a\<lparr>tasks := (tasks s)(token \<mapsto> Sleeping u info output_path (next_attempt_opts k opts) k)\<rparr>"
  have 1: "step s ?a"
    using assms(1) by (rule step_write)
  have "step ?a (attempt_failed token u info output_path opts k e ?a)"
    by (rule step_failed) (simp add: assms)
  then have 2: "step ?a ?b"
    using assms(2) by (simp add: attempt_failed_def)
  have "step ?b (?b\<lparr>tasks := (tasks ?b)(token \<mapsto> Downloading u info output_path (next_attempt_opts k opts) (k + 1))\<rparr>)"
    by (rule step_wake) simp
  then have 3: "step ?b (s\<lparr>disk := d, tasks := (tasks s)(token \<mapsto>
            Downloading u info output_path (next_attempt_opts k opts) (k + 1))\<rparr>)"
    by simp
  show ?thesis
    by (rule steps3 [OF 1 2 3])
qed

text \<open>
  A run of the worker alone is a run of the service: from a state where the token's
  task waits and a permit is free, steps lead to the final state of \<open>convert_video\<close>,
  with the task returned.
\<close>

lemma convert_video_is_a_run:
  assumes p: "tasks s token = Some (Pending u quality)" and free: "0 < permits s"
  shows "step\<^sup>*\<^sup>* s
     ((fst (convert_video resolve extract token u quality now0 now1 now2 s))
        \<lparr>tasks := (tasks s)(token \<mapsto> Finished)\<rparr>)"
proof -
  obtain r s1 where b: "convert_video_begin resolve token u quality now0 s = (r, s1)"
    by (cases "convert_video_begin resolve token u quality now0 s")
  note k = begin_keeps [OF b]
  have enter: "step s (run_conversion resolve token u quality now0 s)"
    using p free by (rule step_enter)
  show ?thesis
  proof (cases r)
    case None
    have "run_conversion resolve token u quality now0 s = s1\<lparr>tasks := (tasks s)(token \<mapsto> Finished)\<rparr>"
      using b None k free by (simp add: run_conversion_def begin_frame)
    moreover have "fst (convert_video resolve extract token u quality now0 now1 now2 s) = s1"
      using b None by (simp add: convert_video_def)
    ultimately show ?thesis using enter by simp
  next
    case (Some loc)
    obtain info output_path opts where loc: "loc = (info, output_path, opts)" by (cases loc)
    let ?T = "\<lambda>w k. (tasks s)(token \<mapsto> Downloading u info output_path w k)"
    let ?A = "\<lambda>d w k. s1\<lparr>disk := d, tasks := ?T w k, permits := permits s - 1\<rparr>"
    let ?o1 = "next_attempt_opts 0 opts"
    let ?o2 = "next_attempt_opts 1 ?o1"
    have a0: "run_conversion resolve token u quality now0 s = ?A (disk s1) opts 0"
      using b Some loc k by (simp add: run_conversion_def begin_frame)
    have fin: "step\<^sup>*\<^sup>* (?A d w k)
        ((convert_video_finish token u info output_path now1 now2 (s1\<lparr>disk := d'\<rparr>))
           \<lparr>tasks := (tasks s)(token \<mapsto> Finished)\<rparr>)" for d d' w k
    proof -
      have chain: "step\<^sup>*\<^sup>* (?A d w k)
          ((convert_video_finish token u info output_path now1 now2 ((?A d w k)\<lparr>disk := d'\<rparr>))
             \<lparr>tasks := (tasks (?A d w k))(token \<mapsto> Finished), permits := permits (?A d w k) + 1\<rparr>)"
        by (rule run_succeeds [of _ _ u info output_path w k]) simp
      have "(?A d w k)\<lparr>disk := d'\<rparr> = s1\<lparr>tasks := ?T w k, permits := permits s - 1, disk := d'\<rparr>"
        by (rule sys.equality) simp_all
      then have eq: "(convert_video_finish token u info output_path now1 now2 ((?A d w k)\<lparr>disk := d'\<rparr>))
             \<lparr>tasks := (tasks (?A d w k))(token \<mapsto> Finished), permits := permits (?A d w k) + 1\<rparr> =
          (convert_video_finish token u info output_path now1 now2 (s1\<lparr>disk := d'\<rparr>))
             \<lparr>tasks := (tasks s)(token \<mapsto> Finished)\<rparr>"
        using free k by (intro sys.equality) (simp_all add: finish_frame3 finish_keeps)
      from chain show ?thesis unfolding eq .
    qed
    have retry: "step\<^sup>*\<^sup>* (?A d w k) (?A d' (next_attempt_opts k w) (k + 1))"
      if "k \<noteq> max_attempts - 1" for d d' w k
    proof -
      have chain: "step\<^sup>*\<^sup>* (?A d w k)
          ((?A d w k)\<lparr>disk := d', tasks := (tasks (?A d w k))(token \<mapsto>
              Downloading u info output_path (next_attempt_opts k w) (k + 1))\<rparr>)"
        by (rule run_fails_early [of _ _ u info output_path w k]) (use that in simp_all)
      have eq: "(?A d w k)\<lparr>disk := d', tasks := (tasks (?A d w k))(token \<mapsto>
              Downloading u info output_path (next_attempt_opts k w) (k + 1))\<rparr> =
          ?A d' (next_attempt_opts k w) (k + 1)"
        by (rule sys.equality) simp_all
      from chain show ?thesis unfolding eq .
    qed
    have last: "step\<^sup>*\<^sup>* (?A d w (max_attempts - 1))
        ((convert_video_except token u e (Some info) (s1\<lparr>disk := d'\<rparr>))
           \<lparr>tasks := (tasks s)(token \<mapsto> Finished)\<rparr>)" for d d' w e
    proof -
      let ?a = "?A d w (max_attempts - 1)"
      have chain: "step\<^sup>*\<^sup>* ?a
          ((convert_video_except token u e (Some info) (?a\<lparr>disk := d'\<rparr>))
             \<lparr>tasks := (tasks ?a)(token \<mapsto> Finished), permits := permits ?a + 1\<rparr>)"
        by (rule run_fails_last [of _ _ u info output_path w]) simp
      have eq: "(convert_video_except token u e (Some info) (?a\<lparr>disk := d'\<rparr>))
             \<lparr>tasks := (tasks ?a)(token \<mapsto> Finished), permits := permits ?a + 1\<rparr> =
          (convert_video_except token u e (Some info) (s1\<lparr>disk := d'\<rparr>))
             \<lparr>tasks := (tasks s)(token \<mapsto> Finished)\<rparr>"
        using free k by (intro sys.equality) (simp_all add: convert_video_except_def)
      from chain show ?thesis unfolding eq .
    qed
    have start: "step\<^sup>*\<^sup>* s (?A (disk s1) opts 0)"
      using enter a0 by simp
    have m: "max_attempts - 1 = 2" "(0::nat) \<noteq> max_attempts - 1" "(1::nat) \<noteq> max_attempts - 1"
      by (simp_all add: max_attempts_def)
    obtain r0 d1 where x0: "extract 0 opts (disk s1) = (r0, d1)" by (cases "extract 0 opts (disk s1)")
    obtain r1 d2 where x1: "extract 1 ?o1 d1 = (r1, d2)" by (cases "extract 1 ?o1 d1")
    obtain r2 d3 where x2: "extract 2 ?o2 d2 = (r2, d3)" by (cases "extract 2 ?o2 d2")
    have to1: "step\<^sup>*\<^sup>* s (?A d1 ?o1 1)"
      using rtranclp_trans [OF start retry [where k = 0 and w = opts and d = "disk s1" and d' = d1]] m
      by simp
    have to2: "step\<^sup>*\<^sup>* s (?A d2 ?o2 2)"
      using rtranclp_trans [OF to1 retry [where k = 1 and w = ?o1 and d = d1 and d' = d2]] m
      by (simp add: numeral_2_eq_2)
    show ?thesis
    proof (cases r0)
      case None
      have "fst (convert_video resolve extract token u quality now0 now1 now2 s) =
          convert_video_finish token u info output_path now1 now2 (s1\<lparr>disk := d1\<rparr>)"
        using b Some loc x0 None by (simp add: convert_video_def download_attempts_unfold)
      with rtranclp_trans [OF start fin [where k = 0 and w = opts and d = "disk s1" and d' = d1]]
      show ?thesis by simp
    next
      case e0: (Some e0)
      show ?thesis
      proof (cases r1)
        case None
        have "fst (convert_video resolve extract token u quality now0 now1 now2 s) =
            convert_video_finish token u info output_path now1 now2 (s1\<lparr>disk := d2\<rparr>)"
          using b Some loc x0 x1 e0 None by (simp add: convert_video_def download_attempts_unfold)
        with rtranclp_trans [OF to1 fin [where k = 1 and w = ?o1 and d = d1 and d' = d2]]
        show ?thesis by simp
      next
        case e1: (Some e1)
        show ?thesis
        proof (cases r2)
          case None
          have "fst (convert_video resolve extract token u quality now0 now1 now2 s) =
              convert_video_finish token u info output_path now1 now2 (s1\<lparr>disk := d3\<rparr>)"
            using b Some loc x0 x1 x2 e0 e1 None by (simp add: convert_video_def download_attempts_unfold)
          with rtranclp_trans [OF to2 fin [where k = 2 and w = ?o2 and d = d2 and d' = d3]]
          show ?thesis by simp
        next
          case e2: (Some e2)
          have "fst (convert_video resolve extract token u quality now0 now1 now2 s) =
              convert_video_except token u e2 (Some info) (s1\<lparr>disk := d3\<rparr>)"
            using b Some loc x0 x1 x2 e0 e1 e2 by (simp add: convert_video_def download_attempts_unfold)
          moreover have "step\<^sup>*\<^sup>* (?A d2 ?o2 2)
              ((convert_video_except token u e2 (Some info) (s1\<lparr>disk := d3\<rparr>))
                 \<lparr>tasks := (tasks s)(token \<mapsto> Finished)\<rparr>)"
            using last [where w = ?o2 and d = d2 and d' = d3 and e = e2] m by simp
          ultimately show ?thesis
            using rtranclp_trans [OF to2] by simp
        qed
      qed
    qed
  qed
qed

lemma convert_video_reachable:
  assumes "reachable s" and "tasks s token = Some (Pending u quality)" and "0 < permits s"
  shows "reachable ((fst (convert_video resolve extract token u quality now0 now1 now2 s))
           \<lparr>tasks := (tasks s)(token \<mapsto> Finished)\<rparr>)"
  using assms(1) convert_video_is_a_run [OF assms(2,3)]
  unfolding reachable_def by (rule rtranclp_trans)

section \<open>What a completed job serves\<close>

text \<open>The search takes the first candidate that exists.\<close>

lemma locate_output_find:
  "locate_output d output_path =
     (case find (\<lambda>c. d c \<noteq> None) (candidates output_path) of
        Some found \<Rightarrow> Inr found
      | None \<Rightarrow> Inl (FileNotFoundError ''No output file found after conversion''))"
  by (simp add: locate_output_def candidates_def)

lemma mp3_name_suffix: "suffix ''.mp3'' (mp3_name found)"
  by (simp add: mp3_name_def suffix_def)

lemma mp3_name_same: "mp3_name found = found \<longleftrightarrow> suffix ''.mp3'' found"
  using mp3_name_suffix [of found] by (auto simp: mp3_name_def)

text \<open>
  The code after the retry loop completes the job when the file found has at least
  100 KiB and the record of the job has its \<open>start_time\<close>.
\<close>

lemma output_completes:
  assumes "locate_output (disk s) output_path = Inr found" and "disk s found = Some f"
    and "100 * 1024 \<le> fsize f" and "map_of (jobs s) token = Some j0" and "start_time j0 = Some t0"
  shows "convert_video_output token u info output_path now1 now2 s =
     (None, s\<lparr>disk := os_rename found (mp3_name found) (disk s),
              jobs := AList.update token
                (completed_job u (mp3_name found) info (fsize f) (now1 - t0) now2) (jobs s)\<rparr>)"
proof (cases "suffix ''.mp3'' found")
  case True
  then have "mp3_name found = found" by (simp add: mp3_name_def)
  with True assms show ?thesis
    by (simp add: convert_video_output_def os_rename_def)
next
  case False
  then have "mp3_name found \<noteq> found" by (simp add: mp3_name_same)
  with False assms show ?thesis
    by (simp add: convert_video_output_def os_rename_def Let_def mp3_name_def)
qed

lemma finish_completes:
  assumes "locate_output (disk s) output_path = Inr found" and "disk s found = Some f"
    and "100 * 1024 \<le> fsize f" and "map_of (jobs s) token = Some j0" and "start_time j0 = Some t0"
  shows "map_of (jobs (convert_video_finish token u info output_path now1 now2 s)) token =
           Some (completed_job u (mp3_name found) info (fsize f) (now1 - t0) now2) \<and>
         disk (convert_video_finish token u info output_path now1 now2 s) (mp3_name found) = Some f \<and>
         (mp3_name found \<noteq> found \<longrightarrow>
            disk (convert_video_finish token u info output_path now1 now2 s) found = None) \<and>
         (\<forall>q. q \<noteq> found \<and> q \<noteq> mp3_name found \<longrightarrow>
            disk (convert_video_finish token u info output_path now1 now2 s) q = disk s q)"
  using assms(2)
  by (simp add: convert_video_finish_def output_completes [OF assms] update_conv' os_rename_def)

text \<open>And only then.\<close>

lemma finish_completed_only:
  assumes "map_of (jobs (convert_video_finish token u info output_path now1 now2 s)) token = Some j"
    and "status j = Completed"
  shows "\<exists>found f j0 t0. locate_output (disk s) output_path = Inr found \<and> disk s found = Some f \<and>
           100 * 1024 \<le> fsize f \<and> map_of (jobs s) token = Some j0 \<and> start_time j0 = Some t0"
proof (cases "convert_video_output token u info output_path now1 now2 s")
  case (Pair r s1)
  show ?thesis
  proof (cases r)
    case (Some e)
    with Pair assms show ?thesis
      by (auto simp: convert_video_finish_def convert_video_except_def update_conv' failed_job_def)
  next
    case None
    with Pair show ?thesis
      by (auto simp: convert_video_output_def Let_def os_rename_def
            split: sum.splits option.splits if_splits dest: renamed_differs)
  qed
qed

lemma finish_completed:
  assumes "map_of (jobs (convert_video_finish token u info output_path now1 now2 s)) token = Some j"
    and "status j = Completed"
  shows "\<exists>found f j0 t0.
           locate_output (disk s) output_path = Inr found \<and> disk s found = Some f \<and>
           100 * 1024 \<le> fsize f \<and> map_of (jobs s) token = Some j0 \<and> start_time j0 = Some t0 \<and>
           j = completed_job u (mp3_name found) info (fsize f) (now1 - t0) now2 \<and>
           file_path j = Some (mp3_name found) \<and> suffix ''.mp3'' (mp3_name found) \<and>
           file_size j = Some (fsize f) \<and>
           disk (convert_video_finish token u info output_path now1 now2 s) (mp3_name found) = Some f \<and>
           (mp3_name found \<noteq> found \<longrightarrow>
              disk (convert_video_finish token u info output_path now1 now2 s) found = None) \<and>
           (\<forall>q. q \<noteq> found \<and> q \<noteq> mp3_name found \<longrightarrow>
              disk (convert_video_finish token u info output_path now1 now2 s) q = disk s q)"
proof -
  from finish_completed_only [OF assms] obtain found f j0 t0 where
    h: "locate_output (disk s) output_path = Inr found" "disk s found = Some f"
       "100 * 1024 \<le> fsize f" "map_of (jobs s) token = Some j0" "start_time j0 = Some t0"
    by blast
  note c = finish_completes [OF h, of u info now1 now2]
  from c assms(1) have j: "j = completed_job u (mp3_name found) info (fsize f) (now1 - t0) now2"
    by simp
  then have "file_path j = Some (mp3_name found)" "file_size j = Some (fsize f)"
    by (simp_all add: completed_job_def)
  with h c j mp3_name_suffix [of found] show ?thesis by blast
qed

lemma download_file_completed:
  assumes "download_file t now s0 = (Inr r, s')"
  shows "\<exists>j. map_of (jobs s0) t = Some j \<and> status j = Completed \<and> file_path j = Some (path r) \<and>
           disk s0 (path r) \<noteq> None"
  using assms by (auto simp: download_file_def Let_def split: option.splits if_splits)

lemma partial_run_eq:
  "partial_run =
     race_1\<lparr>jobs := [(''T1'', completed_job song_url ''downloads/Song-abc.mp3'' song 200000 10 1010)],
            disk := [''downloads/Song-abc.mp3'' \<mapsto> partial_download],
            tasks := [''T1'' \<mapsto> Finished]\<rparr>"
proof -
  let ?o = "get_ydl_opts ''downloads/Song-abc'' ''high''"
  have b: "convert_video_begin resolve_song ''T1'' song_url ''high'' 1000 race_1 =
      (Some (song, ''downloads/Song-abc'', ?o),
       race_1\<lparr>jobs := AList.update ''T1'' (processing_job song_url ''Song-abc'' song 1000) (jobs race_1),
              current_conversions := insert song_url (current_conversions race_1)\<rparr>)"
    by (rule begin_song) (simp add: race_1_eq init_def)
  have o: "outtmpl ?o = ''downloads/Song-abc''"
    by (simp add: get_ydl_opts_def)
  have r: "rsplit_dot_head ''downloads/Song-abc.part'' = ''downloads/Song-abc''"
    by (simp add: rsplit_dot_head_def)
  show ?thesis
    unfolding partial_run_def convert_video_def b
    by (simp add: download_attempts_unfold race_1_eq init_def partial_extractor_def o convert_video_finish_def
          convert_video_output_def locate_output_def suffix_to_prefix r os_rename_def Let_def
          processing_job_def partial_download_def fun_upd_twist)
qed

lemma failed_run_eq:
  "failed_run =
     race_1\<lparr>jobs := [(''T1'', failed_job song_url (ExtractorError ''third run'') (Some song))],
            disk := [''downloads/Song-abc.part'' \<mapsto> partial_data],
            tasks := [''T1'' \<mapsto> Finished]\<rparr>"
proof -
  let ?o = "get_ydl_opts ''downloads/Song-abc'' ''high''"
  let ?d = "[''downloads/Song-abc.part'' \<mapsto> partial_data]"
  have b: "convert_video_begin resolve_song ''T1'' song_url ''high'' 1000 race_1 =
      (Some (song, ''downloads/Song-abc'', ?o),
       race_1\<lparr>jobs := AList.update ''T1'' (processing_job song_url ''Song-abc'' song 1000) (jobs race_1),
              current_conversions := insert song_url (current_conversions race_1)\<rparr>)"
    by (rule begin_song) (simp add: race_1_eq init_def)
  have o: "outtmpl ?o = ''downloads/Song-abc''" "\<And>k opts. outtmpl (next_attempt_opts k opts) = outtmpl opts"
    by (simp_all add: get_ydl_opts_def next_attempt_opts_def)
  show ?thesis
    unfolding failed_run_def convert_video_def b
    by (simp add: download_attempts_unfold race_1_eq init_def failing_extractor_def o
          partial_data_def convert_video_except_def)
qed

lemma reachable_partial_run: "reachable partial_run"
  unfolding partial_run_def
  by (rule convert_video_reachable [OF reachable_step [OF reachable_init step_race_1]])
     (simp_all add: race_1_eq init_def MAX_CONCURRENT_CONVERSIONS_def)

lemma reachable_part_output: "reachable part_output"
  unfolding part_output_def
  by (rule reachable_step [OF reachable_race_3], rule step_write [of _ "''T1''"])
     (simp add: race_3_eq init_def)

lemma reachable_failed_run: "reachable failed_run"
  unfolding failed_run_def
  by (rule convert_video_reachable [OF reachable_step [OF reachable_init step_race_1]])
     (simp_all add: race_1_eq init_def MAX_CONCURRENT_CONVERSIONS_def)

text \<open>
  C4, as the specification states it, fails in both halves. When a run of the extractor
  returns and has left only its partial download \<open>.part\<close>, of 200000 bytes, the worker
  takes that file as the output, renames it to \<open>.mp3\<close> and completes the job; the
  download endpoint then serves it. When all three runs raise and leave 5000 bytes of
  partial data, the job ends Failed and the partial file stays on the disk.
\<close>

theorem partial_file_counterexample:
  "reachable partial_run \<and> reachable failed_run \<and>
   map_of (jobs partial_run) ''T1'' =
     Some (completed_job song_url ''downloads/Song-abc.mp3'' song 200000 10 1010) \<and>
   status (completed_job song_url ''downloads/Song-abc.mp3'' song 200000 10 1010) = Completed \<and>
   file_path (completed_job song_url ''downloads/Song-abc.mp3'' song 200000 10 1010) =
     Some ''downloads/Song-abc.mp3'' \<and>
   map_option fkind (disk partial_run ''downloads/Song-abc.mp3'') = Some PartialData \<and>
   fst (download_file ''T1'' 1020 partial_run) =
     Inr \<lparr>path = ''downloads/Song-abc.mp3'', media_type = ''audio/mpeg'',
          response_filename = ''Song-abc.mp3'',
          content_disposition = ''attachment; filename='' @ [CHR 0x22] @ ''Song-abc.mp3'' @ [CHR 0x22]\<rparr> \<and>
   map_option status (map_of (jobs failed_run) ''T1'') = Some Failed \<and>
   map_option fkind (disk failed_run ''downloads/Song-abc.part'') = Some PartialData"
  using reachable_partial_run reachable_failed_run
  by (simp add: partial_run_eq failed_run_eq)
     (simp add: completed_job_def failed_job_def partial_download_def partial_data_def
        download_file_def Let_def basename_def)

text \<open>
  C4, amended. The worker takes as its output the first file that exists among the
  output path with \<open>.mp3\<close>, \<open>.m4a\<close>, \<open>.webm\<close>, \<open>.part\<close> and the bare output path, whatever
  its content. It completes the job exactly when such a file exists, has at least
  100 KiB, and the job's record has its \<open>start_time\<close>. The completed record then names
  that file under its \<open>.mp3\<close> name (the name itself when it ends in \<open>.mp3\<close>, else the text
  before its last dot with \<open>.mp3\<close>), with its size as \<open>file_size\<close>; the file is on the disk
  under that name and, when the two names differ, no longer under the name found. When
  the located output is smaller than 100 KiB, the worker deletes it and the job ends
  Failed. The download endpoint serves only the recorded file of a record of status
  Completed, and only if it is on the disk.
\<close>

theorem completed_file_is_named_mp3:
  "locate_output (disk s) output_path =
     (case find (\<lambda>c. disk s c \<noteq> None)
             [output_path @ ''.mp3'', output_path @ ''.m4a'', output_path @ ''.webm'',
              output_path @ ''.part'', output_path] of
        Some found \<Rightarrow> Inr found
      | None \<Rightarrow> Inl (FileNotFoundError ''No output file found after conversion'')) \<and>
   (\<forall>found f j0 t0.
      locate_output (disk s) output_path = Inr found \<and> disk s found = Some f \<and>
      100 * 1024 \<le> fsize f \<and> map_of (jobs s) token = Some j0 \<and> start_time j0 = Some t0 \<longrightarrow>
      map_of (jobs (convert_video_finish token u info output_path now1 now2 s)) token =
        Some (completed_job u (mp3_name found) info (fsize f) (now1 - t0) now2) \<and>
      status (completed_job u (mp3_name found) info (fsize f) (now1 - t0) now2) = Completed) \<and>
   (\<forall>j. map_of (jobs (convert_video_finish token u info output_path now1 now2 s)) token = Some j \<and>
        status j = Completed \<longrightarrow>
      (\<exists>found f j0 t0.
         locate_output (disk s) output_path = Inr found \<and> disk s found = Some f \<and>
         100 * 1024 \<le> fsize f \<and> map_of (jobs s) token = Some j0 \<and> start_time j0 = Some t0 \<and>
         j = completed_job u (mp3_name found) info (fsize f) (now1 - t0) now2 \<and>
         file_path j = Some (mp3_name found) \<and> suffix ''.mp3'' (mp3_name found) \<and>
         file_size j = Some (fsize f) \<and>
         disk (convert_video_finish token u info output_path now1 now2 s) (mp3_name found) = Some f \<and>
         (mp3_name found \<noteq> found \<longrightarrow>
            disk (convert_video_finish token u info output_path now1 now2 s) found = None))) \<and>
   (\<forall>found f.
      locate_output (disk s) output_path = Inr found \<and> disk s found = Some f \<and> fsize f < 100 * 1024 \<longrightarrow>
      disk (convert_video_finish token u info output_path now1 now2 s) found = None \<and>
      map_option status (map_of (jobs (convert_video_finish token u info output_path now1 now2 s)) token) =
        Some Failed) \<and>
   (\<forall>r s'. download_file t now s0 = (Inr r, s') \<longrightarrow>
      (\<exists>j. map_of (jobs s0) t = Some j \<and> status j = Completed \<and> file_path j = Some (path r) \<and>
           disk s0 (path r) \<noteq> None))"
proof -
  have a: "locate_output (disk s) output_path =
     (case find (\<lambda>c. disk s c \<noteq> None)
             [output_path @ ''.mp3'', output_path @ ''.m4a'', output_path @ ''.webm'',
              output_path @ ''.part'', output_path] of
        Some found \<Rightarrow> Inr found
      | None \<Rightarrow> Inl (FileNotFoundError ''No output file found after conversion''))"
    using locate_output_find [of "disk s" output_path] by (simp only: candidates_def)
  have b: "\<forall>found f j0 t0.
      locate_output (disk s) output_path = Inr found \<and> disk s found = Some f \<and>
      100 * 1024 \<le> fsize f \<and> map_of (jobs s) token = Some j0 \<and> start_time j0 = Some t0 \<longrightarrow>
      map_of (jobs (convert_video_finish token u info output_path now1 now2 s)) token =
        Some (completed_job u (mp3_name found) info (fsize f) (now1 - t0) now2) \<and>
      status (completed_job u (mp3_name found) info (fsize f) (now1 - t0) now2) = Completed"
    using finish_completes [of s output_path _ _ token _ _ u info now1 now2]
    by (simp add: completed_job_def)
  have c: "\<forall>j. map_of (jobs (convert_video_finish token u info output_path now1 now2 s)) token = Some j \<and>
        status j = Completed \<longrightarrow>
      (\<exists>found f j0 t0.
         locate_output (disk s) output_path = Inr found \<and> disk s found = Some f \<and>
         100 * 1024 \<le> fsize f \<and> map_of (jobs s) token = Some j0 \<and> start_time j0 = Some t0 \<and>
         j = completed_job u (mp3_name found) info (fsize f) (now1 - t0) now2 \<and>
         file_path j = Some (mp3_name found) \<and> suffix ''.mp3'' (mp3_name found) \<and>
         file_size j = Some (fsize f) \<and>
         disk (convert_video_finish token u info output_path now1 now2 s) (mp3_name found) = Some f \<and>
         (mp3_name found \<noteq> found \<longrightarrow>
            disk (convert_video_finish token u info output_path now1 now2 s) found = None))"
    using finish_completed [of token u info output_path now1 now2 s] by blast
  have d: "\<forall>found f.
      locate_output (disk s) output_path = Inr found \<and> disk s found = Some f \<and> fsize f < 100 * 1024 \<longrightarrow>
      disk (convert_video_finish token u info output_path now1 now2 s) found = None \<and>
      map_option status (map_of (jobs (convert_video_finish token u info output_path now1 now2 s)) token) =
        Some Failed"
    using undersized_output [of s output_path _ _ token u info now1 now2]
    by (simp add: failed_job_def)
  have e: "\<forall>r s'. download_file t now s0 = (Inr r, s') \<longrightarrow>
      (\<exists>j. map_of (jobs s0) t = Some j \<and> status j = Completed \<and> file_path j = Some (path r) \<and>
           disk s0 (path r) \<noteq> None)"
    using download_file_completed by blast
  from a b c d e show ?thesis by (intro conjI)
qed

theorem completed_file_is_named_mp3_witness:
  "reachable part_output \<and>
   locate_output (disk part_output) ''downloads/Song-abc'' = Inr ''downloads/Song-abc.part'' \<and>
   disk part_output ''downloads/Song-abc.part'' = Some partial_download \<and>
   100 * 1024 \<le> fsize partial_download \<and>
   map_of (jobs part_output) ''T1'' = Some (processing_job song_url ''Song-abc'' song 1000) \<and>
   start_time (processing_job song_url ''Song-abc'' song 1000) = Some 1000 \<and>
   map_of (jobs (convert_video_finish ''T1'' song_url song ''downloads/Song-abc'' 1010 1010 part_output)) ''T1'' =
     Some (completed_job song_url ''downloads/Song-abc.mp3'' song 200000 10 1010) \<and>
   status (completed_job song_url ''downloads/Song-abc.mp3'' song 200000 10 1010) = Completed \<and>
   disk (convert_video_finish ''T1'' song_url song ''downloads/Song-abc'' 1010 1010 part_output)
     ''downloads/Song-abc.mp3'' = Some partial_download \<and>
   disk (convert_video_finish ''T1'' song_url song ''downloads/Song-abc'' 1010 1010 part_output)
     ''downloads/Song-abc.part'' = None \<and>
   locate_output (disk small_output) ''downloads/Song-abc'' = Inr ''downloads/Song-abc.m4a'' \<and>
   disk small_output ''downloads/Song-abc.m4a'' = Some \<lparr>fsize = 5000, fkind = SourceMedia\<rparr> \<and>
   (5000::nat) < 100 * 1024 \<and>
   disk (convert_video_finish ''T1'' song_url song ''downloads/Song-abc'' 1010 1010 small_output)
     ''downloads/Song-abc.m4a'' = None \<and>
   map_option status
     (map_of (jobs (convert_video_finish ''T1'' song_url song ''downloads/Song-abc'' 1010 1010 small_output))
        ''T1'') = Some Failed \<and>
   (\<exists>r s'. download_file ''A'' 1200 life_4 = (Inr r, s') \<and> path r = ''downloads/Song-abc.mp3'') \<and>
   (\<exists>j. map_of (jobs life_4) ''A'' = Some j \<and> status j = Completed \<and>
        file_path j = Some ''downloads/Song-abc.mp3'' \<and> disk life_4 ''downloads/Song-abc.mp3'' \<noteq> None)"
proof -
  define found where "found = ''downloads/Song-abc.part''"
  define target where "target = ''downloads/Song-abc.mp3''"
  define j0 where "j0 = processing_job song_url ''Song-abc'' song 1000"
  define s1 where "s1 = convert_video_finish ''T1'' song_url song ''downloads/Song-abc'' 1010 1010 part_output"
  define s2 where "s2 = convert_video_finish ''T1'' song_url song ''downloads/Song-abc'' 1010 1010 small_output"
  have loc: "locate_output (disk part_output) ''downloads/Song-abc'' = Inr found"
    by (simp add: part_output_def locate_output_def found_def)
  have dk: "disk part_output found = Some partial_download"
    by (simp add: part_output_def found_def)
  have sz: "100 * 1024 \<le> fsize partial_download" "fsize partial_download = 200000"
    by (simp_all add: partial_download_def)
  have m0: "map_of (jobs part_output) ''T1'' = Some j0"
    by (simp add: part_output_def race_3_eq j0_def)
  have st0: "start_time j0 = Some 1000"
    by (simp add: j0_def processing_job_def)
  have mp: "mp3_name found = target"
    using mp3_name_ext(4) [of "''downloads/Song-abc''"] by (simp add: found_def target_def)
  have ne: "target \<noteq> found"
    by (simp add: found_def target_def)
  note P = completed_file_is_named_mp3 [of part_output "''downloads/Song-abc''" "''T1''" song_url song
      1010 1010 "''A''" 1200 life_4, folded s1_def]
  from P [THEN conjunct2, THEN conjunct1, rule_format, of found partial_download j0 1000] loc dk sz(1) m0 st0
  have fin: "map_of (jobs s1) ''T1'' = Some (completed_job song_url target song 200000 10 1010)"
    and c: "status (completed_job song_url target song 200000 10 1010) = Completed"
    by (simp_all add: mp sz(2))
  from P [THEN conjunct2, THEN conjunct2, THEN conjunct1, rule_format,
      of "completed_job song_url target song 200000 10 1010"] fin c
  obtain found' f where h: "locate_output (disk part_output) ''downloads/Song-abc'' = Inr found'"
    "disk part_output found' = Some f" "disk s1 (mp3_name found') = Some f"
    "mp3_name found' \<noteq> found' \<longrightarrow> disk s1 found' = None"
    by blast
  from h(1) loc have "found' = found" by simp
  with h dk mp ne have on_disk: "disk s1 target = Some partial_download" "disk s1 found = None"
    by simp_all
  have d: "disk small_output ''downloads/Song-abc.m4a'' = Some \<lparr>fsize = 5000, fkind = SourceMedia\<rparr>"
    by (simp add: small_output_def)
  have lt: "(5000::nat) < 100 * 1024"
    by simp
  note Q = completed_file_is_named_mp3 [of small_output "''downloads/Song-abc''" "''T1''" song_url song
      1010 1010 "''A''" 1200 life_4, folded s2_def]
  from Q [THEN conjunct2, THEN conjunct2, THEN conjunct2, THEN conjunct1, rule_format,
      of "''downloads/Song-abc.m4a''" "\<lparr>fsize = 5000, fkind = SourceMedia\<rparr>"] small_output_located d
  have small: "disk s2 ''downloads/Song-abc.m4a'' = None"
    "map_option status (map_of (jobs s2) ''T1'') = Some Failed"
    by simp_all
  from download_life_4
  have served: "\<exists>r s'. download_file ''A'' 1200 life_4 = (Inr r, s') \<and> path r = target"
    by (simp add: target_def)
  then obtain r s' where r: "download_file ''A'' 1200 life_4 = (Inr r, s')" "path r = target"
    by blast
  from P [THEN conjunct2, THEN conjunct2, THEN conjunct2, THEN conjunct2, rule_format, of r s'] r
  have rec: "\<exists>j. map_of (jobs life_4) ''A'' = Some j \<and> status j = Completed \<and>
        file_path j = Some target \<and> disk life_4 target \<noteq> None"
    by simp
  from reachable_part_output loc dk sz(1) m0 st0 fin c on_disk small_output_located d lt small served rec
  show ?thesis
    unfolding found_def target_def j0_def s1_def s2_def by (intro conjI)
qed

section \<open>A second request for a video in progress\<close>

lemma race_5_eq:
  "race_5 = race_4\<lparr>jobs := jobs race_4 @ [(''T3'', queued_job song_url)],
                   tasks := (tasks race_4)(''T3'' \<mapsto> Pending song_url ''high'')\<rparr>"
  by (simp add: race_5_def start_conversion_stores race_4_eq init_def)

text \<open>
  C2 fails in states the service reaches. The guard of the duplicate check compares the
  URL object of the request with the texts in \<open>current_conversions\<close> and in the records,
  so it never holds, and every request gets a new token and a new queued record. Two
  requests for the same video arrive before either worker starts. The first worker
  enters and its job is Processing; the second worker enters, is turned away because
  the URL is in \<open>current_conversions\<close>, and its \<open>finally\<close> block removes the URL from the
  set although the first worker is still at work. A third request for the same URL
  then gets a new token and a new record, while the first job is still Processing and
  the set is without the URL, so that a comparison of the texts would not find the job
  either. The same request made one step earlier, when the URL is in the set and the
  first job is Processing, gets a new token and a new record as well.
\<close>

theorem duplicate_request_starts_second_job:
  "reachable race_4 \<and>
   map_of (jobs race_4) ''T1'' = Some (processing_job song_url ''Song-abc'' song 1000) \<and>
   status (processing_job song_url ''Song-abc'' song 1000) = Processing \<and>
   url (processing_job song_url ''Song-abc'' song 1000) = song_url \<and>
   song_url \<notin> current_conversions race_4 \<and>
   tasks race_4 ''T3'' = None \<and>
   fst (start_conversion ''T3'' (HttpUrl song_url) ''high'' race_4) = (''T3'', ''Conversion started'') \<and>
   length (jobs (snd (start_conversion ''T3'' (HttpUrl song_url) ''high'' race_4))) = length (jobs race_4) + 1 \<and>
   map_of (jobs (snd (start_conversion ''T3'' (HttpUrl song_url) ''high'' race_4))) ''T3'' = Some (queued_job song_url) \<and>
   step race_4 race_5 \<and>
   reachable race_3 \<and>
   map_of (jobs race_3) ''T1'' = Some (processing_job song_url ''Song-abc'' song 1000) \<and>
   song_url \<in> current_conversions race_3 \<and>
   tasks race_3 ''T3'' = None \<and>
   fst (start_conversion ''T3'' (HttpUrl song_url) ''high'' race_3) = (''T3'', ''Conversion started'') \<and>
   length (jobs (snd (start_conversion ''T3'' (HttpUrl song_url) ''high'' race_3))) = length (jobs race_3) + 1 \<and>
   map_of (jobs (snd (start_conversion ''T3'' (HttpUrl song_url) ''high'' race_3))) ''T3'' = Some (queued_job song_url)"
proof -
  have s: "step race_4 race_5"
    unfolding race_5_def by (rule step_submitI) (simp add: race_4_eq init_def)
  have "fst (start_conversion ''T3'' (HttpUrl song_url) ''high'' race_4) = (''T3'', ''Conversion started'')"
    by (simp add: start_conversion_stores race_4_eq init_def)
  moreover have "snd (start_conversion ''T3'' (HttpUrl song_url) ''high'' race_4) = race_5"
    by (simp add: race_5_def)
  ultimately have late: "reachable race_4 \<and>
     map_of (jobs race_4) ''T1'' = Some (processing_job song_url ''Song-abc'' song 1000) \<and>
     status (processing_job song_url ''Song-abc'' song 1000) = Processing \<and>
     url (processing_job song_url ''Song-abc'' song 1000) = song_url \<and>
     song_url \<notin> current_conversions race_4 \<and>
     tasks race_4 ''T3'' = None \<and>
     fst (start_conversion ''T3'' (HttpUrl song_url) ''high'' race_4) = (''T3'', ''Conversion started'') \<and>
     length (jobs (snd (start_conversion ''T3'' (HttpUrl song_url) ''high'' race_4))) = length (jobs race_4) + 1 \<and>
     map_of (jobs (snd (start_conversion ''T3'' (HttpUrl song_url) ''high'' race_4))) ''T3'' = Some (queued_job song_url) \<and>
     step race_4 race_5"
    using reachable_race_4 s
    by (simp add: race_5_eq) (simp add: race_4_eq init_def processing_job_def)
  have early: "map_of (jobs race_3) ''T1'' = Some (processing_job song_url ''Song-abc'' song 1000) \<and>
     song_url \<in> current_conversions race_3 \<and>
     tasks race_3 ''T3'' = None \<and>
     fst (start_conversion ''T3'' (HttpUrl song_url) ''high'' race_3) = (''T3'', ''Conversion started'') \<and>
     length (jobs (snd (start_conversion ''T3'' (HttpUrl song_url) ''high'' race_3))) = length (jobs race_3) + 1 \<and>
     map_of (jobs (snd (start_conversion ''T3'' (HttpUrl song_url) ''high'' race_3))) ''T3'' = Some (queued_job song_url)"
    by (simp add: start_conversion_stores) (simp add: race_3_eq init_def)
  from late reachable_race_3 early show ?thesis by (intro conjI) blast+
qed

text \<open>
  C8 fails in the same run. The URL is in \<open>current_conversions\<close> while the first worker
  waits for the extractor; the step of the second worker, which fails on the duplicate
  check and never added the URL, removes it; the first worker is still in flight.
\<close>

theorem duplicate_worker_removes_membership:
  "reachable race_3 \<and> step race_3 race_4 \<and>
   song_url \<in> current_conversions race_3 \<and>
   tasks race_3 ''T1'' =
     Some (Downloading song_url song ''downloads/Song-abc'' (get_ydl_opts ''downloads/Song-abc'' ''high'') 0) \<and>
   tasks race_3 ''T2'' = Some (Pending song_url ''high'') \<and>
   race_4 = run_conversion resolve_song ''T2'' song_url ''high'' 1001 race_3 \<and>
   tasks race_4 ''T1'' =
     Some (Downloading song_url song ''downloads/Song-abc'' (get_ydl_opts ''downloads/Song-abc'' ''high'') 0) \<and>
   map_of (jobs race_4) ''T1'' = Some (processing_job song_url ''Song-abc'' song 1000) \<and>
   map_of (jobs race_4) ''T2'' =
     Some (failed_job song_url (HTTPException 400 ''This video is already being converted'') None) \<and>
   song_url \<notin> current_conversions race_4"
  using reachable_race_3 step_race_4
  by (simp add: race_4_def [symmetric]) (simp add: race_3_eq race_4_eq init_def)

end
